theory Spec2Isabelle
  imports Complex_Main
begin

text \<open>
  A model of the type, schema and validation modules of the Jira timesheet reporting
  tool (\<^verbatim>\<open>types/core.ts\<close>, \<^verbatim>\<open>types/grouping.ts\<close>, \<^verbatim>\<open>types/jira.ts\<close>,
  \<^verbatim>\<open>types/api.ts\<close> and the validation utilities), followed by the properties the
  specification states about them.

  Conventions. A JavaScript number is a real number or one of the three special values
  (\<open>jsnum\<close>). Sums, products and quotients of numbers are exact, so the rounding of
  IEEE arithmetic is outside the model. The integers that \<^verbatim>\<open>parseInt\<close> and
  \<^verbatim>\<open>Math.floor\<close> return are of type \<open>int\<close> and are Numbers: they carry at most 53
  significant bits. A string is a list of characters. A thrown \<^verbatim>\<open>Error\<close> is the left
  injection of a sum type.
\<close>

section \<open>JavaScript primitives used by the modules\<close>

text \<open>\<^verbatim>\<open>Array.prototype.join(sep)\<close>.\<close>

definition join_with :: "string \<Rightarrow> string list \<Rightarrow> string" where
  "join_with sep parts =
     (case parts of [] \<Rightarrow> [] | p # ps \<Rightarrow> foldl (\<lambda>acc q. acc @ sep @ q) p ps)"

text \<open>The regular-expression class \<^verbatim>\<open>\d\<close>, the value of a digit and the digit of a
  value below ten.\<close>

definition is_digit :: "char \<Rightarrow> bool" where
  "is_digit c \<longleftrightarrow> c \<in> set ''0123456789''"

definition digit_val :: "char \<Rightarrow> int" where
  "digit_val c = of_char c - 48"

definition digit_char :: "int \<Rightarrow> char" where
  "digit_char n = ''0123456789'' ! nat n"

text \<open>
  Integer-valued Numbers. A Number is an IEEE double: it carries 53 significant bits, so
  every integer of magnitude up to \<open>2^53\<close> is a Number, and a larger integer is one only
  when its low bits are zero. \<open>shift_of n\<close> is the number of low bits that a
  non-negative integer \<open>n\<close> loses when it is cut to 53 significant bits;
  \<open>round_to_double\<close> is the Number nearest to a non-negative integer, a tie going to
  the even significand, and \<open>floor_to_double\<close> is the greatest integer-valued Number
  that is not above an integer.
\<close>

function shift_of :: "int \<Rightarrow> nat" where
  "shift_of n = (if n < 2 ^ 53 then 0 else Suc (shift_of (n div 2)))"
  by pat_completeness auto
termination
  by (relation "measure nat") auto

declare shift_of.simps [simp del]

definition round_to_double :: "int \<Rightarrow> int" where
  "round_to_double n =
     (let e = shift_of n; q = n div 2 ^ e; r = n mod 2 ^ e
      in if 2 * r > 2 ^ e \<or> (2 * r = 2 ^ e \<and> odd q) then (q + 1) * 2 ^ e else q * 2 ^ e)"

definition floor_to_double :: "int \<Rightarrow> int" where
  "floor_to_double n = (let e = shift_of \<bar>n\<bar> in (n div 2 ^ e) * 2 ^ e)"

text \<open>The integer that a string of digits denotes.\<close>

definition digits_value :: "string \<Rightarrow> int" where
  "digits_value ds = foldl (\<lambda>acc c. 10 * acc + digit_val c) 0 ds"

text \<open>
  \<^verbatim>\<open>parseInt(ds, 10)\<close> on a string of digits: the Number nearest to the integer the
  digits denote. (From about 309 digits on, where that integer reaches \<open>2^1024\<close>, the
  runtime returns \<^verbatim>\<open>Infinity\<close>, which this integer-valued function does not express;
  every statement below bounds the integers it reads far under that range.)
\<close>

definition parseInt10 :: "string \<Rightarrow> int" where
  "parseInt10 ds = round_to_double (digits_value ds)"

text \<open>The decimal digits of a non-negative integer.\<close>

function dec :: "int \<Rightarrow> string" where
  "dec n = (if n < 10 then [digit_char n] else dec (n div 10) @ [digit_char (n mod 10)])"
  by pat_completeness auto
termination
  by (relation "measure nat") auto

declare dec.simps [simp del]

definition strip_trailing_zeros :: "string \<Rightarrow> string" where
  "strip_trailing_zeros ds = rev (dropWhile (\<lambda>c. c = CHR ''0'') (rev ds))"

text \<open>
  The text of an integer-valued number, as a template literal or \<^verbatim>\<open>String(n)\<close> writes
  it (ECMAScript \<^verbatim>\<open>Number::toString\<close>): plain decimal digits below \<open>10^21\<close>, and
  scientific notation \<^verbatim>\<open>d.ddde+NN\<close> from \<open>10^21\<close> on. In the scientific branch the
  mantissa written here is that of the exact value without its trailing zeros; the
  runtime writes the shortest digits that identify the double. The two agree at \<open>10^21\<close>
  (\<^verbatim>\<open>1e+21\<close>), and no result below depends on the mantissa anywhere else.
\<close>

definition number_to_string :: "int \<Rightarrow> string" where
  "number_to_string n =
     (let sign = (if n < 0 then ''-'' else '''');
          ds = dec \<bar>n\<bar>
      in if \<bar>n\<bar> < 10 ^ 21 then sign @ ds
         else (let sig = strip_trailing_zeros ds;
                   mant = (case sig of [] \<Rightarrow> [] | [d] \<Rightarrow> [d] | d # r \<Rightarrow> d # CHR ''.'' # r)
               in sign @ mant @ ''e+'' @ dec (int (length ds) - 1)))"

text \<open>
  \<^verbatim>\<open>Math.floor\<close>: the result is an integer-valued Number. For an argument that is a
  Number this is the floor of the argument; the model's argument is any real, and the
  result is the greatest integer-valued Number not above it.
\<close>

definition math_floor :: "real \<Rightarrow> int" where
  "math_floor x = floor_to_double \<lfloor>x\<rfloor>"

text \<open>\<^verbatim>\<open>Math.round\<close>: the nearest integer, halves rounded up.\<close>

definition math_round :: "real \<Rightarrow> int" where
  "math_round x = \<lfloor>x + 1 / 2\<rfloor>"

section \<open>Jira time strings (\<^verbatim>\<open>types/jira.ts\<close>)\<close>

text \<open>
  \<^verbatim>\<open>timeSpent.match(/(\d+)u/)\<close> for a unit letter \<open>u\<close> that is not a digit: the capture
  group of the leftmost match, if any. Scanning from the left, \<open>acc\<close> holds the digits
  of the run being read; the run matches when the unit letter follows it. The call
  starts with \<open>acc = []\<close>.
\<close>

fun regex_number_unit :: "char \<Rightarrow> string \<Rightarrow> string \<Rightarrow> string option" where
  "regex_number_unit u acc [] = None"
| "regex_number_unit u acc (c # cs) =
     (if is_digit c then regex_number_unit u (acc @ [c]) cs
      else if c = u \<and> acc \<noteq> [] then Some acc
      else regex_number_unit u [] cs)"

definition parseJiraTimeSpent :: "string \<Rightarrow> real" where
  "parseJiraTimeSpent timeSpent =
     (let dayMatch = regex_number_unit CHR ''d'' [] timeSpent;
          hourMatch = regex_number_unit CHR ''h'' [] timeSpent;
          minuteMatch = regex_number_unit CHR ''m'' [] timeSpent;
          days = (case dayMatch of Some g \<Rightarrow> parseInt10 g | None \<Rightarrow> 0);
          hours = (case hourMatch of Some g \<Rightarrow> parseInt10 g | None \<Rightarrow> 0);
          minutes = (case minuteMatch of Some g \<Rightarrow> parseInt10 g | None \<Rightarrow> 0)
      in of_int (days * 8) + of_int hours + of_int minutes / 60)"

definition formatHoursAsJiraTime :: "real \<Rightarrow> string" where
  "formatHoursAsJiraTime hours =
     (let wholeHours = math_floor hours;
          minutes = math_round ((hours - of_int wholeHours) * 60)
      in if wholeHours = 0 \<and> minutes = 0 then ''0m''
         else join_with '' ''
           ((if wholeHours > 0 then [number_to_string wholeHours @ ''h''] else []) @
            (if minutes > 0 then [number_to_string minutes @ ''m''] else [])))"

text \<open>
  The strings the specification speaks of: the components \<^verbatim>\<open>Nd\<close>, \<^verbatim>\<open>Mh\<close>, \<^verbatim>\<open>Km\<close>,
  each optional, written in decimal and separated by one space (\<^verbatim>\<open>1d 3h\<close>,
  \<^verbatim>\<open>2h 30m\<close>). An absent component counts as zero.
\<close>

definition jira_component :: "char \<Rightarrow> int option \<Rightarrow> string list" where
  "jira_component u x = (case x of None \<Rightarrow> [] | Some n \<Rightarrow> [dec n @ [u]])"

definition jira_time_string :: "int option \<Rightarrow> int option \<Rightarrow> int option \<Rightarrow> string" where
  "jira_time_string d h m =
     join_with '' ''
       (jira_component CHR ''d'' d @ jira_component CHR ''h'' h @ jira_component CHR ''m'' m)"

definition component_value :: "int option \<Rightarrow> int" where
  "component_value x = (case x of None \<Rightarrow> 0 | Some n \<Rightarrow> n)"

section \<open>Sanitizers (validation utilities)\<close>

text \<open>
  Strings are lists of characters. The three regular-expression replacements of
  \<^verbatim>\<open>sanitizeFileName\<close> work character by character, so each becomes a list
  function.
\<close>

text \<open>The character class \<^verbatim>\<open>[a-zA-Z0-9.-]\<close>.\<close>

definition is_safe_char :: "char \<Rightarrow> bool" where
  "is_safe_char c \<longleftrightarrow>
     c \<in> set ''abcdefghijklmnopqrstuvwxyzABCDEFGHIJKLMNOPQRSTUVWXYZ0123456789.-''"

text \<open>\<^verbatim>\<open>.replace(/[^a-zA-Z0-9.-]/g, '_')\<close>: every character outside the class becomes
  an underscore.\<close>

definition replace_unsafe :: "string \<Rightarrow> string" where
  "replace_unsafe s = map (\<lambda>c. if is_safe_char c then c else CHR ''_'') s"

text \<open>\<^verbatim>\<open>.replace(/_{2,}/g, '_')\<close>: scanning from the left, a run of two or more
  underscores is consumed whole (the quantifier is greedy) and one underscore is written;
  any other character is copied.\<close>

function squeeze_underscores :: "string \<Rightarrow> string" where
  "squeeze_underscores [] = []"
| "squeeze_underscores [c] = [c]"
| "squeeze_underscores (c # d # cs) =
     (if c = CHR ''_'' \<and> d = CHR ''_''
      then CHR ''_'' # squeeze_underscores (dropWhile (\<lambda>x. x = CHR ''_'') cs)
      else c # squeeze_underscores (d # cs))"
  by pat_completeness auto
termination
  by (relation "measure length") (auto simp: less_Suc_eq_le intro: le_trans [OF length_dropWhile_le])

text \<open>\<^verbatim>\<open>.replace(/^_|_$/g, '')\<close>: one underscore at the very start and one at the very
  end are removed (without the multiline flag the anchors are the ends of the string).\<close>

definition strip_edge_underscores :: "string \<Rightarrow> string" where
  "strip_edge_underscores s =
     (let t = (case s of [] \<Rightarrow> [] | c # cs \<Rightarrow> if c = CHR ''_'' then cs else s)
      in if t \<noteq> [] \<and> last t = CHR ''_'' then butlast t else t)"

definition sanitizeFileName :: "string \<Rightarrow> string" where
  "sanitizeFileName fileName =
     strip_edge_underscores (squeeze_underscores (replace_unsafe fileName))"

text \<open>No two neighbouring characters are both underscores.\<close>

fun no_double_underscore :: "string \<Rightarrow> bool" where
  "no_double_underscore (c # d # cs) =
     (\<not> (c = CHR ''_'' \<and> d = CHR ''_'') \<and> no_double_underscore (d # cs))"
| "no_double_underscore _ = True"

section \<open>Runtime values and the schema library\<close>

text \<open>
  The modules declare their schemas with the zod library and call \<^verbatim>\<open>safeParse\<close> on
  values of type \<^verbatim>\<open>unknown\<close>. This section models the runtime values and the part
  of the library the schemas use (version 3, whose failures carry \<^verbatim>\<open>error.errors\<close>):
  \<^verbatim>\<open>z.string()\<close> with \<^verbatim>\<open>.email()\<close> and \<^verbatim>\<open>.url()\<close>, \<^verbatim>\<open>z.number()\<close> with
  \<^verbatim>\<open>.positive()\<close> and \<^verbatim>\<open>.max(n)\<close>, \<^verbatim>\<open>z.boolean()\<close>, \<^verbatim>\<open>z.enum\<close>, \<^verbatim>\<open>z.any()\<close>,
  \<^verbatim>\<open>z.array\<close>, \<^verbatim>\<open>z.object\<close> and \<^verbatim>\<open>.optional()\<close>.
\<close>

datatype jsnum = Finite real | PosInfinity | NegInfinity | NaN

text \<open>A runtime value. An object is the list of its own properties; \<open>JOther\<close> stands
  for every other kind of value (function, symbol, bigint, date, map, set, promise),
  tagged with the library's name for its type.\<close>

datatype jsval =
    JUndefined
  | JNull
  | JBool bool
  | JNum jsnum
  | JStr string
  | JArr "jsval list"
  | JObj "(string \<times> jsval) list"
  | JOther string

text \<open>Reading a property (\<^verbatim>\<open>data[key]\<close>: a missing property reads as \<^verbatim>\<open>undefined\<close>)
  and the test \<^verbatim>\<open>key in data\<close>.\<close>

definition get_prop :: "(string \<times> jsval) list \<Rightarrow> string \<Rightarrow> jsval" where
  "get_prop fs k = (case map_of fs k of Some x \<Rightarrow> x | None \<Rightarrow> JUndefined)"

definition has_prop :: "(string \<times> jsval) list \<Rightarrow> string \<Rightarrow> bool" where
  "has_prop fs k \<longleftrightarrow> k \<in> fst ` set fs"

text \<open>The comparisons \<^verbatim>\<open>n > c\<close> and \<^verbatim>\<open>n <= c\<close> of a number with a finite constant.\<close>

fun num_gt :: "jsnum \<Rightarrow> real \<Rightarrow> bool" where
  "num_gt (Finite x) c = (x > c)"
| "num_gt PosInfinity c = True"
| "num_gt NegInfinity c = False"
| "num_gt NaN c = False"

fun num_le :: "jsnum \<Rightarrow> real \<Rightarrow> bool" where
  "num_le (Finite x) c = (x \<le> c)"
| "num_le PosInfinity c = False"
| "num_le NegInfinity c = True"
| "num_le NaN c = False"

datatype string_check = Email | Url

datatype number_check = Positive | Max int

datatype schema =
    ZString "string_check list"
  | ZNumber "number_check list"
  | ZBoolean
  | ZEnum "string list"
  | ZAny
  | ZArray schema
  | ZObject "(string \<times> schema) list"
  | ZOptional schema

text \<open>An issue of a failed parse: where it was found and the message of the library's
  default error map.\<close>

datatype path_elem = Key string | Index nat

record issue =
  path :: "path_elem list"
  message :: string

text \<open>
  The two string formats are decided inside the library (a regular expression for
  addresses, the platform's URL parser for URLs); the schemas take them as given, and so
  does the model: every function below has the two tests as a parameter.
\<close>

record formats =
  is_email :: "string \<Rightarrow> bool"
  is_url :: "string \<Rightarrow> bool"

text \<open>The library's name for the type of a value (\<^verbatim>\<open>getParsedType\<close>).\<close>

fun parsed_type :: "jsval \<Rightarrow> string" where
  "parsed_type JUndefined = ''undefined''"
| "parsed_type JNull = ''null''"
| "parsed_type (JBool b) = ''boolean''"
| "parsed_type (JNum n) = (if n = NaN then ''nan'' else ''number'')"
| "parsed_type (JStr s) = ''string''"
| "parsed_type (JArr xs) = ''array''"
| "parsed_type (JObj fs) = ''object''"
| "parsed_type (JOther t) = t"

definition invalid_type :: "path_elem list \<Rightarrow> string \<Rightarrow> jsval \<Rightarrow> issue" where
  "invalid_type p expected v =
     \<lparr>path = p,
      message = (if v = JUndefined then ''Required''
                 else ''Expected '' @ expected @ '', received '' @ parsed_type v)\<rparr>"

text \<open>\<^verbatim>\<open>util.joinValues\<close>: the options of an enum, quoted and separated by bars.\<close>

definition join_values :: "string list \<Rightarrow> string" where
  "join_values opts = join_with '' | '' (map (\<lambda>v. [CHR 0x27] @ v @ [CHR 0x27]) opts)"

definition invalid_enum_value :: "path_elem list \<Rightarrow> string list \<Rightarrow> string \<Rightarrow> issue" where
  "invalid_enum_value p opts received =
     \<lparr>path = p,
      message = ''Invalid enum value. Expected '' @ join_values opts @ '', received ''
                  @ [CHR 0x27] @ received @ [CHR 0x27]\<rparr>"

fun string_issue :: "formats \<Rightarrow> path_elem list \<Rightarrow> string \<Rightarrow> string_check \<Rightarrow> issue list" where
  "string_issue fm p s Email =
     (if is_email fm s then [] else [\<lparr>path = p, message = ''Invalid email''\<rparr>])"
| "string_issue fm p s Url =
     (if is_url fm s then [] else [\<lparr>path = p, message = ''Invalid url''\<rparr>])"

fun number_issue :: "path_elem list \<Rightarrow> jsnum \<Rightarrow> number_check \<Rightarrow> issue list" where
  "number_issue p n Positive =
     (if num_gt n 0 then [] else [\<lparr>path = p, message = ''Number must be greater than 0''\<rparr>])"
| "number_issue p n (Max m) =
     (if num_le n (of_int m) then []
      else [\<lparr>path = p,
             message = ''Number must be less than or equal to '' @ number_to_string m\<rparr>])"

text \<open>The results of the parts of an array or object: the parts' values when all are
  valid, otherwise all their issues, in order.\<close>

fun collect :: "('e list + 'a) list \<Rightarrow> 'e list + 'a list" where
  "collect [] = Inr []"
| "collect (r # rs) =
     (case (r, collect rs) of
        (Inr x, Inr xs) \<Rightarrow> Inr (x # xs)
      | (Inr x, Inl es) \<Rightarrow> Inl es
      | (Inl e, Inr xs) \<Rightarrow> Inl e
      | (Inl e, Inl es) \<Rightarrow> Inl (e @ es))"

text \<open>
  Parsing a value at a path: the issues, or the parsed value. A string or number runs
  all its checks; an array parses every element and an object every key of its shape,
  so that the issues of all parts are reported; an object keeps the keys of its shape
  only (unknown keys are stripped), a key being kept when the input has it or its
  parsed value is not \<^verbatim>\<open>undefined\<close>.
\<close>

fun parse_schema :: "formats \<Rightarrow> schema \<Rightarrow> path_elem list \<Rightarrow> jsval \<Rightarrow> issue list + jsval" where
  "parse_schema fm (ZString checks) p v =
     (case v of
        JStr s \<Rightarrow>
          (case concat (map (string_issue fm p s) checks) of
             [] \<Rightarrow> Inr v
           | e # es \<Rightarrow> Inl (e # es))
      | _ \<Rightarrow> Inl [invalid_type p ''string'' v])"
| "parse_schema fm (ZNumber checks) p v =
     (case v of
        JNum n \<Rightarrow>
          (if n = NaN then Inl [invalid_type p ''number'' v]
           else (case concat (map (number_issue p n) checks) of
                   [] \<Rightarrow> Inr v
                 | e # es \<Rightarrow> Inl (e # es)))
      | _ \<Rightarrow> Inl [invalid_type p ''number'' v])"
| "parse_schema fm ZBoolean p v =
     (case v of JBool b \<Rightarrow> Inr v | _ \<Rightarrow> Inl [invalid_type p ''boolean'' v])"
| "parse_schema fm (ZEnum opts) p v =
     (case v of
        JStr s \<Rightarrow> (if s \<in> set opts then Inr v else Inl [invalid_enum_value p opts s])
      | _ \<Rightarrow> Inl [invalid_type p (join_values opts) v])"
| "parse_schema fm ZAny p v = Inr v"
| "parse_schema fm (ZOptional s) p v =
     (if v = JUndefined then Inr JUndefined else parse_schema fm s p v)"
| "parse_schema fm (ZArray s) p v =
     (case v of
        JArr xs \<Rightarrow>
          (case collect (map (\<lambda>(i, x). parse_schema fm s (p @ [Index i]) x) (enumerate 0 xs)) of
             Inl es \<Rightarrow> Inl es
           | Inr ys \<Rightarrow> Inr (JArr ys))
      | _ \<Rightarrow> Inl [invalid_type p ''array'' v])"
| "parse_schema fm (ZObject shape) p v =
     (case v of
        JObj fs \<Rightarrow>
          (case collect
                  (map (\<lambda>(k, s). map_sum id (Pair k) (parse_schema fm s (p @ [Key k]) (get_prop fs k)))
                     shape) of
             Inl es \<Rightarrow> Inl es
           | Inr kvs \<Rightarrow> Inr (JObj (filter (\<lambda>(k, x). x \<noteq> JUndefined \<or> has_prop fs k) kvs)))
      | _ \<Rightarrow> Inl [invalid_type p ''object'' v])"

text \<open>\<^verbatim>\<open>schema.safeParse(data)\<close>: \<open>Inr\<close> is \<^verbatim>\<open>{success: true, data}\<close>, \<open>Inl\<close> is
  \<^verbatim>\<open>{success: false, error}\<close> with the issues \<^verbatim>\<open>error.errors\<close>.\<close>

definition safeParse :: "formats \<Rightarrow> schema \<Rightarrow> jsval \<Rightarrow> issue list + jsval" where
  "safeParse fm sch data = parse_schema fm sch [] data"

definition success :: "issue list + jsval \<Rightarrow> bool" where
  "success result = (case result of Inr data \<Rightarrow> True | Inl errors \<Rightarrow> False)"

text \<open>A value passes a schema when \<^verbatim>\<open>safeParse\<close> succeeds on it.\<close>

definition accepts :: "formats \<Rightarrow> schema \<Rightarrow> jsval \<Rightarrow> bool" where
  "accepts fm sch v = success (safeParse fm sch v)"

section \<open>Entity schemas (\<^verbatim>\<open>types/core.ts\<close>)\<close>

definition UserSchema :: schema where
  "UserSchema = ZObject
     [(''id'', ZString []),
      (''email'', ZString [Email]),
      (''displayName'', ZString []),
      (''avatarUrl'', ZOptional (ZString [Url])),
      (''accountId'', ZString []),
      (''timeZone'', ZOptional (ZString [])),
      (''active'', ZBoolean)]"

definition IssueSchema :: schema where
  "IssueSchema = ZObject
     [(''id'', ZString []),
      (''key'', ZString []),
      (''summary'', ZString []),
      (''description'', ZOptional (ZString [])),
      (''issueType'', ZObject
         [(''id'', ZString []),
          (''name'', ZString []),
          (''iconUrl'', ZOptional (ZString [Url]))]),
      (''status'', ZObject
         [(''id'', ZString []),
          (''name'', ZString []),
          (''statusCategory'', ZObject
             [(''id'', ZString []),
              (''name'', ZString []),
              (''colorName'', ZString [])])]),
      (''priority'', ZOptional (ZObject
         [(''id'', ZString []),
          (''name'', ZString []),
          (''iconUrl'', ZOptional (ZString [Url]))])),
      (''assignee'', ZOptional UserSchema),
      (''reporter'', ZOptional UserSchema),
      (''project'', ZObject
         [(''id'', ZString []),
          (''key'', ZString []),
          (''name'', ZString [])]),
      (''created'', ZString []),
      (''updated'', ZString [])]"

definition TimesheetEntrySchema :: schema where
  "TimesheetEntrySchema = ZObject
     [(''id'', ZString []),
      (''issueId'', ZString []),
      (''issue'', IssueSchema),
      (''author'', UserSchema),
      (''timeSpentSeconds'', ZNumber [Positive]),
      (''timeSpentHours'', ZNumber [Positive]),
      (''description'', ZOptional (ZString [])),
      (''started'', ZString []),
      (''created'', ZString []),
      (''updated'', ZString []),
      (''project'', ZObject
         [(''id'', ZString []),
          (''key'', ZString []),
          (''name'', ZString [])]),
      (''worklogId'', ZString [])]"

definition isTimesheetEntry :: "formats \<Rightarrow> jsval \<Rightarrow> bool" where
  "isTimesheetEntry fm obj = success (safeParse fm TimesheetEntrySchema obj)"

section \<open>Grouping configuration (\<^verbatim>\<open>types/grouping.ts\<close>)\<close>

definition GroupingDimensionSchema :: schema where
  "GroupingDimensionSchema =
     ZEnum [''project'', ''user'', ''issueType'', ''status'', ''date'', ''issue'']"

definition DateGroupingTypeSchema :: schema where
  "DateGroupingTypeSchema = ZEnum [''day'', ''week'', ''month'', ''quarter'', ''year'']"

definition SortOrderSchema :: schema where
  "SortOrderSchema = ZEnum [''asc'', ''desc'']"

definition SortBySchema :: schema where
  "SortBySchema = ZEnum [''name'', ''hours'', ''count'', ''date'']"

definition GroupingLevelSchema :: schema where
  "GroupingLevelSchema = ZObject
     [(''dimension'', GroupingDimensionSchema),
      (''sortBy'', SortBySchema),
      (''sortOrder'', SortOrderSchema),
      (''dateGroupingType'', ZOptional DateGroupingTypeSchema),
      (''expanded'', ZBoolean)]"

definition GroupingConfigSchema :: schema where
  "GroupingConfigSchema = ZObject
     [(''levels'', ZArray GroupingLevelSchema),
      (''showSubtotals'', ZBoolean),
      (''showGrandTotal'', ZBoolean),
      (''collapseEmptyGroups'', ZBoolean)]"

definition isGroupingConfig :: "formats \<Rightarrow> jsval \<Rightarrow> bool" where
  "isGroupingConfig fm obj = success (safeParse fm GroupingConfigSchema obj)"

section \<open>Request envelopes (\<^verbatim>\<open>types/api.ts\<close>)\<close>

definition TimesheetsRequestSchema :: schema where
  "TimesheetsRequestSchema = ZObject
     [(''filters'', ZAny),
      (''grouping'', ZAny),
      (''page'', ZOptional (ZNumber [Positive])),
      (''limit'', ZOptional (ZNumber [Positive, Max 1000])),
      (''includeIssueDetails'', ZOptional ZBoolean)]"

definition isTimesheetsRequest :: "formats \<Rightarrow> jsval \<Rightarrow> bool" where
  "isTimesheetsRequest fm obj = success (safeParse fm TimesheetsRequestSchema obj)"

section \<open>Validation utilities\<close>

datatype error = Error string

text \<open>One issue as \<^verbatim>\<open>`${err.path.join('.')}: ${err.message}`\<close>; an array index in a
  path is a number and is written in decimal.\<close>

fun path_elem_text :: "path_elem \<Rightarrow> string" where
  "path_elem_text (Key k) = k"
| "path_elem_text (Index i) = number_to_string (int i)"

definition issue_text :: "issue \<Rightarrow> string" where
  "issue_text err = join_with ''.'' (map path_elem_text (path err)) @ '': '' @ message err"

text \<open>\<^verbatim>\<open>validateData(schema, data, errorMessage?)\<close>. The optional message is tested
  for truthiness, so an empty message counts as absent.\<close>

definition validateData :: "formats \<Rightarrow> schema \<Rightarrow> jsval \<Rightarrow> string option \<Rightarrow> error + jsval" where
  "validateData fm sch data errorMessage =
     (case safeParse fm sch data of
        Inl errors \<Rightarrow>
          (let errorDetails = join_with '', '' (map issue_text errors)
           in Inl (Error
                (case errorMessage of
                   Some m \<Rightarrow>
                     (if m \<noteq> [] then m @ '': '' @ errorDetails
                      else ''Validation failed: '' @ errorDetails)
                 | None \<Rightarrow> ''Validation failed: '' @ errorDetails)))
      | Inr result \<Rightarrow> Inr result)"

definition validateGroupingConfig :: "formats \<Rightarrow> jsval \<Rightarrow> error + jsval" where
  "validateGroupingConfig fm data =
     validateData fm GroupingConfigSchema data (Some ''Invalid grouping configuration'')"

definition validateTimesheetEntry :: "formats \<Rightarrow> jsval \<Rightarrow> error + jsval" where
  "validateTimesheetEntry fm data =
     validateData fm TimesheetEntrySchema data (Some ''Invalid timesheet entry'')"

text \<open>A call raises when its result is an error.\<close>

definition raises :: "error + 'a \<Rightarrow> bool" where
  "raises r = (case r of Inl e \<Rightarrow> True | Inr x \<Rightarrow> False)"

section \<open>Statements of the specification and example values\<close>

text \<open>
  The predicates of this section follow the words of the specification, not the code;
  the properties below compare them with the schemas.
\<close>

text \<open>The derived field agrees with the source of truth: \<open>timeSpentHours\<close> equals
  \<open>timeSpentSeconds / 3600\<close>, within the tolerance \<open>1e-9\<close> the specification uses for
  hours.\<close>

definition hours_match_seconds :: "jsval \<Rightarrow> bool" where
  "hours_match_seconds v =
     (case v of
        JObj fs \<Rightarrow>
          (case (get_prop fs ''timeSpentSeconds'', get_prop fs ''timeSpentHours'') of
             (JNum (Finite s), JNum (Finite h)) \<Rightarrow> \<bar>h - s / 3600\<bar> \<le> 1 / 10 ^ 9
           | _ \<Rightarrow> False)
      | _ \<Rightarrow> False)"

text \<open>The levels of a configuration value, and the three ways the specification calls
  a level malformed: its dimension is not one of the six names; it has a date-grouping
  type and its dimension is not \<^verbatim>\<open>date\<close>; or its dimension is \<^verbatim>\<open>date\<close> and it has no
  date-grouping type.\<close>

definition levels_of :: "jsval \<Rightarrow> jsval list" where
  "levels_of v =
     (case v of
        JObj fs \<Rightarrow> (case get_prop fs ''levels'' of JArr ls \<Rightarrow> ls | _ \<Rightarrow> [])
      | _ \<Rightarrow> [])"

definition dimension_known :: "jsval \<Rightarrow> bool" where
  "dimension_known l =
     (case l of
        JObj lf \<Rightarrow>
          (case get_prop lf ''dimension'' of
             JStr d \<Rightarrow> d \<in> set [''project'', ''user'', ''issueType'', ''status'', ''date'', ''issue'']
           | _ \<Rightarrow> False)
      | _ \<Rightarrow> False)"

definition date_type_without_date :: "jsval \<Rightarrow> bool" where
  "date_type_without_date l =
     (case l of
        JObj lf \<Rightarrow>
          get_prop lf ''dateGroupingType'' \<noteq> JUndefined \<and> get_prop lf ''dimension'' \<noteq> JStr ''date''
      | _ \<Rightarrow> False)"

definition date_without_date_type :: "jsval \<Rightarrow> bool" where
  "date_without_date_type l =
     (case l of
        JObj lf \<Rightarrow>
          get_prop lf ''dimension'' = JStr ''date'' \<and> get_prop lf ''dateGroupingType'' = JUndefined
      | _ \<Rightarrow> False)"

definition malformed_grouping :: "jsval \<Rightarrow> bool" where
  "malformed_grouping v =
     list_ex (\<lambda>l. \<not> dimension_known l \<or> date_type_without_date l \<or> date_without_date_type l)
       (levels_of v)"

text \<open>
  Example values. The format tests of the examples accept one address, which the
  library accepts as well, and nothing else; a value that is valid under them is valid
  under the library's tests.
\<close>

definition example_formats :: formats where
  "example_formats = \<lparr>is_email = (\<lambda>s. s = ''ada@example.com''), is_url = (\<lambda>s. False)\<rparr>"

definition sample_user :: jsval where
  "sample_user = JObj
     [(''id'', JStr ''u1''),
      (''email'', JStr ''ada@example.com''),
      (''displayName'', JStr ''Ada''),
      (''accountId'', JStr ''acc-1''),
      (''active'', JBool True)]"

definition sample_project :: jsval where
  "sample_project = JObj [(''id'', JStr ''10000''), (''key'', JStr ''ABC''), (''name'', JStr ''Alpha'')]"

definition sample_issue :: jsval where
  "sample_issue = JObj
     [(''id'', JStr ''20001''),
      (''key'', JStr ''ABC-1''),
      (''summary'', JStr ''Set up the report''),
      (''issueType'', JObj [(''id'', JStr ''1''), (''name'', JStr ''Bug'')]),
      (''status'', JObj
         [(''id'', JStr ''3''),
          (''name'', JStr ''In Progress''),
          (''statusCategory'', JObj
             [(''id'', JStr ''4''), (''name'', JStr ''In Progress''), (''colorName'', JStr ''yellow'')])]),
      (''project'', sample_project),
      (''created'', JStr ''2024-01-10T09:00:00.000Z''),
      (''updated'', JStr ''2024-01-15T17:00:00.000Z'')]"

definition sample_entry :: "real \<Rightarrow> real \<Rightarrow> jsval" where
  "sample_entry seconds hours = JObj
     [(''id'', JStr ''e1''),
      (''issueId'', JStr ''20001''),
      (''issue'', sample_issue),
      (''author'', sample_user),
      (''timeSpentSeconds'', JNum (Finite seconds)),
      (''timeSpentHours'', JNum (Finite hours)),
      (''started'', JStr ''2024-01-15''),
      (''created'', JStr ''2024-01-15T17:00:00.000Z''),
      (''updated'', JStr ''2024-01-15T17:00:00.000Z''),
      (''project'', sample_project),
      (''worklogId'', JStr ''30001'')]"

definition sample_level :: "string \<Rightarrow> jsval option \<Rightarrow> jsval" where
  "sample_level dimension dateGroupingType = JObj
     ([(''dimension'', JStr dimension),
       (''sortBy'', JStr ''name''),
       (''sortOrder'', JStr ''asc'')]
      @ (case dateGroupingType of None \<Rightarrow> [] | Some t \<Rightarrow> [(''dateGroupingType'', t)])
      @ [(''expanded'', JBool True)])"

definition sample_config :: "jsval list \<Rightarrow> jsval" where
  "sample_config levels = JObj
     [(''levels'', JArr levels),
      (''showSubtotals'', JBool True),
      (''showGrandTotal'', JBool True),
      (''collapseEmptyGroups'', JBool True)]"

section \<open>Group tree (\<^verbatim>\<open>types/grouping.ts\<close> and the builder of the specification)\<close>

text \<open>The configuration and node types, as the interfaces declare them.\<close>

datatype GroupingDimension = DimProject | DimUser | DimIssueType | DimStatus | DimDate | DimIssue

datatype DateGroupingType = Day | Week | Month | Quarter | Year

datatype SortOrder = Asc | Desc

datatype SortBy = ByName | ByHours | ByCount | ByDate

record GroupingLevel =
  dimension :: GroupingDimension
  sortBy :: SortBy
  sortOrder :: SortOrder
  dateGroupingType :: "DateGroupingType option"
  expanded :: bool

record GroupingConfig =
  levels :: "GroupingLevel list"
  showSubtotals :: bool
  showGrandTotal :: bool
  collapseEmptyGroups :: bool

record NodeMetadata =
  projectKey :: "string option"
  userId :: "string option"
  issueTypeId :: "string option"
  statusId :: "string option"
  dateRange :: "(string \<times> string) option"
  issueId :: "string option"

datatype GroupNode =
  GroupNode
    (node_id: string)
    (node_dimension: GroupingDimension)
    (node_value: string)
    (displayName: string)
    (level: nat)
    (totalHours: real)
    (entryCount: nat)
    (children: "GroupNode list")
    (entries: "string list")
    (isExpanded: bool)
    (metadata: "NodeMetadata option")

text \<open>
  Modelled from the spec: the input of the group tree builder. The builder is not part
  of the sources, which declare the shapes above only. A timesheet entry is reduced to
  the fields section 4.1 of the specification reads: its identifier, its hours, its work
  date and the identifiers the dimensions group by, each of which may be missing.
\<close>

record TimesheetEntry =
  entry_id :: string
  timeSpentHours :: real
  started :: "string option"
  project_id :: "string option"
  author_id :: "string option"
  issue_type_id :: "string option"
  status_id :: "string option"
  issue_id :: "string option"

text \<open>
  Modelled from the spec: what the specification of the builder leaves open, taken as
  parameters. These are the truncation of a work date to the start of its bucket (the
  calendar arithmetic of day, week, month, quarter and year), the display label and the
  metadata of a group (derived from its key and the first entry seen with that key), the
  identifier of a node (from its parent's identifier, its level and its key), and the
  identity of the synthetic root of an ungrouped tree.
\<close>

record presentation =
  date_bucket :: "DateGroupingType option \<Rightarrow> string \<Rightarrow> string"
  label_of :: "GroupingLevel \<Rightarrow> string \<Rightarrow> TimesheetEntry \<Rightarrow> string"
  metadata_of :: "GroupingLevel \<Rightarrow> string \<Rightarrow> TimesheetEntry \<Rightarrow> NodeMetadata option"
  make_id :: "string \<Rightarrow> GroupingLevel \<Rightarrow> string \<Rightarrow> string"
  root_id :: string
  root_dimension :: GroupingDimension
  root_label :: string

text \<open>
  Modelled from the spec: the grouping key of an entry at a level (step 1 of the
  builder's algorithm). The project, author, issue-type, status and issue identifiers
  are the keys of their dimensions; the key of the date dimension is the work date
  truncated to the level's bucket. An entry that lacks the field falls into the bucket
  \<^verbatim>\<open>Unassigned\<close> (for the user dimension) or \<^verbatim>\<open>No <dimension>\<close>.
\<close>

fun missing_bucket :: "GroupingDimension \<Rightarrow> string" where
  "missing_bucket DimProject = ''No project''"
| "missing_bucket DimUser = ''Unassigned''"
| "missing_bucket DimIssueType = ''No issueType''"
| "missing_bucket DimStatus = ''No status''"
| "missing_bucket DimDate = ''No date''"
| "missing_bucket DimIssue = ''No issue''"

definition group_key :: "presentation \<Rightarrow> GroupingLevel \<Rightarrow> TimesheetEntry \<Rightarrow> string" where
  "group_key pr lv e =
     (let field =
        (case dimension lv of
           DimProject \<Rightarrow> project_id e
         | DimUser \<Rightarrow> author_id e
         | DimIssueType \<Rightarrow> issue_type_id e
         | DimStatus \<Rightarrow> status_id e
         | DimIssue \<Rightarrow> issue_id e
         | DimDate \<Rightarrow> map_option (date_bucket pr (dateGroupingType lv)) (started e))
      in case field of Some k \<Rightarrow> k | None \<Rightarrow> missing_bucket (dimension lv))"

text \<open>
  Modelled from the spec: the partition of the entries of a level into buckets by key
  (step 2), the buckets in the order in which their keys are first seen and the entries
  of a bucket in their input order.
\<close>

fun add_to_bucket ::
  "string \<Rightarrow> TimesheetEntry \<Rightarrow> (string \<times> TimesheetEntry list) list \<Rightarrow> (string \<times> TimesheetEntry list) list"
where
  "add_to_bucket k e [] = [(k, [e])]"
| "add_to_bucket k e ((k', b) # bs) =
     (if k = k' then (k', b @ [e]) # bs else (k', b) # add_to_bucket k e bs)"

definition partition_entries ::
  "(TimesheetEntry \<Rightarrow> string) \<Rightarrow> TimesheetEntry list \<Rightarrow> (string \<times> TimesheetEntry list) list"
where
  "partition_entries key es = foldl (\<lambda>bs e. add_to_bucket (key e) e bs) [] es"

text \<open>
  Modelled from the spec: the order of siblings (step 4). The sort key of a level is
  the display label, the total hours, the entry count, or the start of the bucket (the
  group value, an ISO date for the date dimension); strings compare lexicographically;
  the sort is stable, so that siblings with equal keys keep their first-seen order.
\<close>

fun string_le :: "string \<Rightarrow> string \<Rightarrow> bool" where
  "string_le [] t = True"
| "string_le (a # s) [] = False"
| "string_le (a # s) (b # t) =
     ((of_char a :: nat) < of_char b \<or> (a = b \<and> string_le s t))"

definition sort_key_le :: "SortBy \<Rightarrow> GroupNode \<Rightarrow> GroupNode \<Rightarrow> bool" where
  "sort_key_le key a b =
     (case key of
        ByName \<Rightarrow> string_le (displayName a) (displayName b)
      | ByHours \<Rightarrow> totalHours a \<le> totalHours b
      | ByCount \<Rightarrow> entryCount a \<le> entryCount b
      | ByDate \<Rightarrow> string_le (node_value a) (node_value b))"

definition sibling_le :: "GroupingLevel \<Rightarrow> GroupNode \<Rightarrow> GroupNode \<Rightarrow> bool" where
  "sibling_le lv a b =
     (case sortOrder lv of
        Asc \<Rightarrow> sort_key_le (sortBy lv) a b
      | Desc \<Rightarrow> sort_key_le (sortBy lv) b a)"

fun insert_sibling :: "(GroupNode \<Rightarrow> GroupNode \<Rightarrow> bool) \<Rightarrow> GroupNode \<Rightarrow> GroupNode list \<Rightarrow> GroupNode list" where
  "insert_sibling le x [] = [x]"
| "insert_sibling le x (y # ys) = (if le x y then x # y # ys else y # insert_sibling le x ys)"

definition sort_siblings :: "GroupingLevel \<Rightarrow> GroupNode list \<Rightarrow> GroupNode list" where
  "sort_siblings lv ns = foldr (insert_sibling (sibling_le lv)) ns []"

text \<open>
  Modelled from the spec: the recursive partition (step 2) with the aggregates computed
  bottom-up (step 3) and the siblings of each level sorted (step 4). Each bucket of the
  current level becomes one node; its children are built from the bucket's entries and
  the remaining levels; when no level remains, the bucket's entries are the node's own
  entries. The total hours and the entry count of a node are those of its children plus
  those of its own entries. The depth of a child is its parent's plus one. A bucket
  is never empty, so the first entry seen with its key exists.
\<close>

fun build_level ::
  "presentation \<Rightarrow> nat \<Rightarrow> string \<Rightarrow> GroupingLevel list \<Rightarrow> TimesheetEntry list \<Rightarrow> GroupNode list"
where
  "build_level pr depth parent [] es = []"
| "build_level pr depth parent (lv # lvs) es =
     sort_siblings lv
       (map (\<lambda>(k, bucket).
               let nid = make_id pr parent lv k;
                   kids = build_level pr (Suc depth) nid lvs bucket;
                   own = (if lvs = [] then bucket else [])
               in GroupNode nid (dimension lv) k
                    (label_of pr lv k (hd bucket))
                    depth
                    (sum_list (map totalHours kids) + sum_list (map timeSpentHours own))
                    (sum_list (map entryCount kids) + length own)
                    kids
                    (map entry_id own)
                    (expanded lv)
                    (metadata_of pr lv k (hd bucket)))
          (partition_entries (group_key pr lv) es))"

text \<open>
  Modelled from the spec: collapsing empty groups (step 5). A node is removed when its
  entry count is zero, or when, after its children were pruned, it has neither children
  nor entries of its own; the removal goes bottom-up, so that it propagates to parents.
\<close>

definition removable :: "GroupNode \<Rightarrow> bool" where
  "removable n \<longleftrightarrow> entryCount n = 0 \<or> (children n = [] \<and> entries n = [])"

fun prune_node :: "GroupNode \<Rightarrow> GroupNode" where
  "prune_node (GroupNode i d v n l t c kids es x m) =
     GroupNode i d v n l t c (filter (\<lambda>k. \<not> removable k) (map prune_node kids)) es x m"

definition prune_forest :: "GroupNode list \<Rightarrow> GroupNode list" where
  "prune_forest ns = filter (\<lambda>k. \<not> removable k) (map prune_node ns)"

text \<open>
  Modelled from the spec: the builder. With no level, the forest is a single synthetic
  root that holds all entries directly and is never collapsed; otherwise it is the
  forest of the first level, pruned when the configuration asks for it. The subtotal and
  grand-total flags (step 6) are for display and change no data.
\<close>

definition build_group_tree :: "presentation \<Rightarrow> TimesheetEntry list \<Rightarrow> GroupingConfig \<Rightarrow> GroupNode list" where
  "build_group_tree pr es cfg =
     (if levels cfg = []
      then [GroupNode (root_id pr) (root_dimension pr) '''' (root_label pr) 0
              (sum_list (map timeSpentHours es)) (length es) [] (map entry_id es) True None]
      else (let forest = build_level pr 0 '''' (levels cfg) es
            in if collapseEmptyGroups cfg then prune_forest forest else forest))"

text \<open>The nodes of a tree, the identifiers of the entries in a subtree, and the hours
  of the entry with a given identifier.\<close>

fun nodes_of :: "GroupNode \<Rightarrow> GroupNode list" where
  "nodes_of (GroupNode i d v n l t c kids es x m) =
     GroupNode i d v n l t c kids es x m # concat (map nodes_of kids)"

fun subtree_entries :: "GroupNode \<Rightarrow> string list" where
  "subtree_entries (GroupNode i d v n l t c kids es x m) = es @ concat (map subtree_entries kids)"

definition hours_of :: "TimesheetEntry list \<Rightarrow> string \<Rightarrow> real" where
  "hours_of es i =
     (case find (\<lambda>e. entry_id e = i) es of Some e \<Rightarrow> timeSpentHours e | None \<Rightarrow> 0)"

text \<open>A tree is sound when, at every node, the total hours and the entry count are those
  of the children plus those of the node's own entries.\<close>

fun node_sound :: "TimesheetEntry list \<Rightarrow> GroupNode \<Rightarrow> bool" where
  "node_sound es (GroupNode i d v n l t c kids ens x m) =
     (t = sum_list (map totalHours kids) + sum_list (map (hours_of es) ens)
      \<and> c = sum_list (map entryCount kids) + length ens
      \<and> (\<forall>k\<in>set kids. node_sound es k))"

text \<open>
  Example values: a presentation that labels a group with its key, and Scenario A of the
  specification (three entries across the projects B, A, A with 1, 2 and 3 hours, grouped
  by project and sorted by name, ascending).
\<close>

definition example_presentation :: presentation where
  "example_presentation =
     \<lparr>date_bucket = (\<lambda>t s. s),
      label_of = (\<lambda>lv k e. k),
      metadata_of = (\<lambda>lv k e. None),
      make_id = (\<lambda>parent lv k. parent @ ''/'' @ k),
      root_id = ''root'',
      root_dimension = DimProject,
      root_label = ''All entries''\<rparr>"

definition scenario_entry :: "string \<Rightarrow> real \<Rightarrow> string \<Rightarrow> TimesheetEntry" where
  "scenario_entry i h p =
     \<lparr>entry_id = i, timeSpentHours = h, started = Some ''2024-01-15'', project_id = Some p,
      author_id = Some ''u1'', issue_type_id = Some ''1'', status_id = Some ''3'',
      issue_id = Some ''20001''\<rparr>"

definition scenario_entries :: "TimesheetEntry list" where
  "scenario_entries =
     [scenario_entry ''e1'' 1 ''B'', scenario_entry ''e2'' 2 ''A'', scenario_entry ''e3'' 3 ''A'']"

definition scenario_config :: GroupingConfig where
  "scenario_config =
     \<lparr>levels = [\<lparr>dimension = DimProject, sortBy = ByName, sortOrder = Asc,
                  dateGroupingType = None, expanded = True\<rparr>],
      showSubtotals = True, showGrandTotal = True, collapseEmptyGroups = True\<rparr>"

definition scenario_node_A :: GroupNode where
  "scenario_node_A = GroupNode ''/A'' DimProject ''A'' ''A'' 0 5 2 [] [''e2'', ''e3''] True None"

definition scenario_node_B :: GroupNode where
  "scenario_node_B = GroupNode ''/B'' DimProject ''B'' ''B'' 0 1 1 [] [''e1''] True None"

section \<open>Properties: Jira time strings\<close>

text \<open>Integer-valued Numbers: how many bits are cut, which integers are Numbers, and what
  \<open>Math.floor\<close> returns below \<open>10^21\<close>.\<close>

lemma shift_small: "n < 2 ^ 53 \<Longrightarrow> shift_of n = 0"
  by (simp add: shift_of.simps)

lemma shift_bound: "n < 2 ^ 53 * 2 ^ k \<Longrightarrow> shift_of n \<le> k"
proof (induction k arbitrary: n)
  case 0
  then show ?case by (simp add: shift_small)
next
  case (Suc k)
  show ?case
  proof (cases "n < 2 ^ 53")
    case True
    then show ?thesis by (simp add: shift_small)
  next
    case False
    define p :: int where "p = 2 ^ 53 * 2 ^ k"
    from Suc.prems have "n < 2 * p" by (simp add: p_def)
    then have "n div 2 < p" by arith
    then have "shift_of (n div 2) \<le> k" unfolding p_def by (rule Suc.IH)
    with False show ?thesis by (subst shift_of.simps) simp
  qed
qed

lemma shift_div: "n div 2 ^ shift_of n < 2 ^ 53"
proof (induction n rule: shift_of.induct)
  case (1 n)
  show ?case
  proof (cases "n < 2 ^ 53")
    case True
    then show ?thesis by (simp add: shift_small)
  next
    case False
    with 1 have "(n div 2) div 2 ^ shift_of (n div 2) < 2 ^ 53" by simp
    moreover have "shift_of n = Suc (shift_of (n div 2))"
      using False by (subst shift_of.simps) simp
    ultimately show ?thesis
      by (simp add: zdiv_zmult2_eq)
  qed
qed

lemma shift_of_scaled: "q < 2 ^ 53 \<Longrightarrow> 2 ^ 52 \<le> q \<Longrightarrow> shift_of (q * 2 ^ e) = e"
proof (induction e)
  case 0
  then show ?case by (simp add: shift_small)
next
  case (Suc e)
  have "\<not> q * 2 ^ Suc e < 2 ^ 53"
  proof -
    have "(2::int) ^ 53 = 2 ^ 52 * 2" by simp
    also have "\<dots> \<le> q * 2" using Suc.prems(2) by simp
    also have "\<dots> \<le> q * 2 ^ Suc e" using Suc.prems(2)
      by (intro mult_left_mono) (auto simp: self_le_power)
    finally show ?thesis by simp
  qed
  moreover have "q * 2 ^ Suc e div 2 = q * 2 ^ e" by simp
  ultimately show ?case using Suc by (subst shift_of.simps) simp
qed

lemma shift_lower: "0 < shift_of n \<Longrightarrow> 2 ^ 52 \<le> n div 2 ^ shift_of n"
proof (induction n rule: shift_of.induct)
  case (1 n)
  show ?case
  proof (cases "n < 2 ^ 53")
    case True
    with "1.prems" show ?thesis by (simp add: shift_small)
  next
    case False
    have s: "shift_of n = Suc (shift_of (n div 2))"
      using False by (subst shift_of.simps) simp
    show ?thesis
    proof (cases "shift_of (n div 2) = 0")
      case True
      from False have "2 ^ 52 \<le> n div 2" by simp
      with s True show ?thesis by simp
    next
      case nz: False
      with 1 False have "2 ^ 52 \<le> (n div 2) div 2 ^ shift_of (n div 2)" by simp
      with s show ?thesis by (simp add: zdiv_zmult2_eq)
    qed
  qed
qed


lemma shift_zero_small: "shift_of n = 0 \<Longrightarrow> n < 2 ^ 53"
  by (subst (asm) shift_of.simps) (simp split: if_splits)

lemma number_small: "n < 2 ^ 53 \<Longrightarrow> round_to_double n = n"
  by (simp add: round_to_double_def shift_small)


lemma number_scaled:
  assumes "q < 2 ^ 53" "2 ^ 52 \<le> q"
  shows "round_to_double (q * 2 ^ e) = q * 2 ^ e"
  using assms by (simp add: round_to_double_def shift_of_scaled)

lemma floor_to_double_number:
  assumes "0 \<le> n"
  shows "round_to_double (floor_to_double n) = floor_to_double n"
proof (cases "shift_of n = 0")
  case True
  then have "n < 2 ^ 53" by (rule shift_zero_small)
  with True assms show ?thesis by (simp add: floor_to_double_def Let_def number_small)
next
  case False
  then have "2 ^ 52 \<le> n div 2 ^ shift_of n" by (intro shift_lower) simp
  moreover have "n div 2 ^ shift_of n < 2 ^ 53" by (rule shift_div)
  ultimately show ?thesis using assms by (simp add: floor_to_double_def Let_def number_scaled)
qed

lemma floor_to_double_bounds:
  assumes "0 \<le> n"
  shows "0 \<le> floor_to_double n" "floor_to_double n \<le> n"
    "n - floor_to_double n < 2 ^ shift_of n"
proof -
  define d :: int where "d = 2 ^ shift_of n"
  have d: "0 < d" by (simp add: d_def)
  have f: "floor_to_double n = (n div d) * d" using assms by (simp add: floor_to_double_def Let_def d_def)
  have "0 \<le> n div d" using assms d by (simp add: pos_imp_zdiv_nonneg_iff)
  then show "0 \<le> floor_to_double n" using d unfolding f by simp
  have m: "n - (n div d) * d = n mod d" using div_mult_mod_eq[of n d] by linarith
  have "0 \<le> n mod d" "n mod d < d" using d by simp_all
  with m show "floor_to_double n \<le> n" unfolding f by linarith
  from m \<open>n mod d < d\<close> show "n - floor_to_double n < 2 ^ shift_of n" unfolding f d_def by simp
qed

lemma math_floor_props:
  assumes "0 \<le> h" "h < 10 ^ 21"
  shows "0 \<le> math_floor h" "of_int (math_floor h) \<le> h" "h - of_int (math_floor h) < 2 ^ 17"
    "math_floor h < 10 ^ 21" "round_to_double (math_floor h) = math_floor h"
proof -
  define n where "n = \<lfloor>h\<rfloor>"
  have n0: "0 \<le> n" using assms(1) by (simp add: n_def)
  have nh: "of_int n \<le> h" "h < of_int n + 1" unfolding n_def by linarith+
  have n21: "n < 10 ^ 21" using assms(2) by (simp add: n_def floor_less_iff)
  then have "n < 2 ^ 53 * 2 ^ 17" by simp
  then have "shift_of n \<le> 17" by (rule shift_bound)
  then have "(2::int) ^ shift_of n \<le> 2 ^ 17" by (intro power_increasing) simp_all
  with floor_to_double_bounds(3)[OF n0] have g: "n - floor_to_double n < 2 ^ 17" by linarith
  have w: "math_floor h = floor_to_double n" by (simp add: math_floor_def n_def)
  show "0 \<le> math_floor h" unfolding w using n0 by (rule floor_to_double_bounds)
  have le: "floor_to_double n \<le> n" using n0 by (rule floor_to_double_bounds)
  then have "(of_int (floor_to_double n) :: real) \<le> of_int n" by simp
  with nh show "of_int (math_floor h) \<le> h" unfolding w by linarith
  from g have "n - floor_to_double n \<le> 2 ^ 17 - 1" by simp
  then have "(of_int (n - floor_to_double n) :: real) \<le> of_int (2 ^ 17 - 1)"
    by (simp only: of_int_le_iff)
  then have "(of_int n :: real) - of_int (floor_to_double n) \<le> 2 ^ 17 - 1" by simp
  with nh show "h - of_int (math_floor h) < 2 ^ 17" unfolding w by linarith
  from le n21 show "math_floor h < 10 ^ 21" unfolding w by linarith
  show "round_to_double (math_floor h) = math_floor h"
    unfolding w using n0 by (rule floor_to_double_number)
qed

text \<open>Digits, decimal rendering and the scan for a number before a unit letter.\<close>

lemma digit_char_props:
  assumes "0 \<le> d" "d < 10"
  shows "is_digit (digit_char d) \<and> digit_val (digit_char d) = d"
proof -
  from assms have "d \<in> {0,1,2,3,4,5,6,7,8,9}" by (simp; arith)
  then show ?thesis
    by (auto simp: is_digit_def digit_char_def digit_val_def)
qed

lemma dec_digits: "0 \<le> n \<Longrightarrow> dec n \<noteq> [] \<and> (\<forall>c\<in>set (dec n). is_digit c)"
proof (induction n rule: dec.induct)
  case (1 n)
  show ?case
  proof (cases "n < 10")
    case True
    with 1(2) show ?thesis by (subst dec.simps, subst (2) dec.simps) (simp add: digit_char_props)
  next
    case False
    with 1 have ih: "dec (n div 10) \<noteq> [] \<and> (\<forall>c\<in>set (dec (n div 10)). is_digit c)" by simp
    have "is_digit (digit_char (n mod 10))" by (simp add: digit_char_props)
    with False ih show ?thesis by (subst dec.simps, subst (2) dec.simps) simp
  qed
qed

lemma digits_value_snoc: "digits_value (ds @ [c]) = 10 * digits_value ds + digit_val c"
  by (simp add: digits_value_def)

lemma digits_value_dec: "0 \<le> n \<Longrightarrow> digits_value (dec n) = n"
proof (induction n rule: dec.induct)
  case (1 n)
  show ?case
  proof (cases "n < 10")
    case True
    with 1(2) show ?thesis by (subst dec.simps) (simp add: digits_value_def digit_char_props)
  next
    case False
    with 1 have "digits_value (dec (n div 10)) = n div 10" by simp
    with False show ?thesis
      by (subst dec.simps) (simp add: digits_value_snoc digit_char_props)
  qed
qed

lemma parseInt10_dec: "0 \<le> n \<Longrightarrow> round_to_double n = n \<Longrightarrow> parseInt10 (dec n) = n"
  by (simp add: parseInt10_def digits_value_dec)

lemma regex_hit_acc:
  "\<forall>c\<in>set ds. is_digit c \<Longrightarrow> \<not> is_digit u \<Longrightarrow> acc @ ds \<noteq> [] \<Longrightarrow>
   regex_number_unit u acc (ds @ u # rest) = Some (acc @ ds)"
  by (induction ds arbitrary: acc) auto

lemma regex_skip_acc:
  "\<forall>c\<in>set ds. is_digit c \<Longrightarrow> \<not> is_digit c' \<Longrightarrow> c' \<noteq> u \<Longrightarrow>
   regex_number_unit u acc (ds @ c' # rest) = regex_number_unit u [] rest"
  by (induction ds arbitrary: acc) auto

lemma regex_hit_dec:
  "0 \<le> n \<Longrightarrow> \<not> is_digit u \<Longrightarrow> regex_number_unit u [] (dec n @ u # rest) = Some (dec n)"
  using regex_hit_acc[of "dec n" u "[]" rest] dec_digits[of n] by simp

lemma regex_skip_dec:
  "0 \<le> n \<Longrightarrow> \<not> is_digit c' \<Longrightarrow> c' \<noteq> u \<Longrightarrow>
   regex_number_unit u [] (dec n @ c' # rest) = regex_number_unit u [] rest"
  using regex_skip_acc[of "dec n" c' u "[]" rest] dec_digits[of n] by simp

lemma unit_not_digit:
  "\<not> is_digit CHR ''d''" "\<not> is_digit CHR ''h''" "\<not> is_digit CHR ''m''" "\<not> is_digit CHR '' ''"
  by (simp_all add: is_digit_def)

lemma parse_components:
  assumes "0 \<le> component_value d" "0 \<le> component_value h" "0 \<le> component_value m"
    and "round_to_double (component_value d) = component_value d"
    and "round_to_double (component_value h) = component_value h"
    and "round_to_double (component_value m) = component_value m"
  shows "parseJiraTimeSpent (jira_time_string d h m) =
         of_int (component_value d) * 8 + of_int (component_value h) + of_int (component_value m) / 60"
  using assms
  by (cases d; cases h; cases m)
     (simp_all add: jira_time_string_def jira_component_def component_value_def join_with_def
        parseJiraTimeSpent_def regex_hit_dec regex_skip_dec unit_not_digit parseInt10_dec)




text \<open>What \<open>formatHoursAsJiraTime\<close> writes below \<open>10^21\<close> hours, and what
  \<open>parseJiraTimeSpent\<close> reads back.\<close>

lemma number_to_string_small: "0 \<le> n \<Longrightarrow> n < 10 ^ 21 \<Longrightarrow> number_to_string n = dec n"
  by (simp add: number_to_string_def)

lemma dec_0: "dec 0 = ''0''"
  by (simp add: dec.simps digit_char_def)

lemma math_round_minutes:
  assumes "0 \<le> f" "f < 2 ^ 17"
  shows "0 \<le> math_round (f * 60)" "math_round (f * 60) \<le> 60 * 2 ^ 17"
    "\<bar>of_int (math_round (f * 60)) / 60 - f\<bar> \<le> 1 / 120"
proof -
  define m where "m = math_round (f * 60)"
  have lo: "of_int m \<le> f * 60 + 1 / 2" and hi: "f * 60 + 1 / 2 < of_int m + 1"
    unfolding m_def math_round_def by linarith+
  from assms hi have "(0::real) < of_int m + 1" by linarith
  then show "0 \<le> math_round (f * 60)" unfolding m_def[symmetric] by linarith
  from assms lo have "of_int m < (60 * 2 ^ 17 + 1 :: real)" by simp
  then have "of_int m < (of_int (60 * 2 ^ 17 + 1) :: real)" by simp
  then have "m < 60 * 2 ^ 17 + 1" by (simp only: of_int_less_iff)
  then show "math_round (f * 60) \<le> 60 * 2 ^ 17" unfolding m_def[symmetric] by simp
  have "of_int m / 60 - f \<le> 1 / 120" using lo by linarith
  moreover have "- (1 / 120) \<le> of_int m / 60 - f" using hi by linarith
  ultimately show "\<bar>of_int (math_round (f * 60)) / 60 - f\<bar> \<le> 1 / 120"
    unfolding m_def[symmetric] by linarith
qed

lemma format_as_components:
  assumes "0 \<le> h" "h < 10 ^ 21"
  shows "formatHoursAsJiraTime h =
         jira_time_string None
           (if math_floor h > 0 then Some (math_floor h) else None)
           (if math_round ((h - of_int (math_floor h)) * 60) > 0
            then Some (math_round ((h - of_int (math_floor h)) * 60))
            else if math_floor h = 0 then Some 0 else None)"
proof -
  define w where "w = math_floor h"
  define m where "m = math_round ((h - of_int w) * 60)"
  have w0: "0 \<le> w" and "w < 10 ^ 21" using math_floor_props[OF assms] by (simp_all add: w_def)
  then have nw: "number_to_string w = dec w" by (intro number_to_string_small)
  have f: "0 \<le> h - of_int w" "h - of_int w < 2 ^ 17"
    using math_floor_props[OF assms] unfolding w_def by linarith+
  have m0: "0 \<le> m" and "m \<le> 60 * 2 ^ 17" using math_round_minutes[OF f] by (simp_all add: m_def)
  then have nm: "number_to_string m = dec m" by (intro number_to_string_small) simp_all
  have "formatHoursAsJiraTime h =
          (if w = 0 \<and> m = 0 then ''0m''
           else join_with '' ''
            ((if w > 0 then [number_to_string w @ ''h''] else []) @
             (if m > 0 then [number_to_string m @ ''m''] else [])))"
    unfolding formatHoursAsJiraTime_def Let_def w_def m_def ..
  also have "\<dots> = jira_time_string None (if w > 0 then Some w else None)
                    (if m > 0 then Some m else if w = 0 then Some 0 else None)"
    using w0 m0
    by (simp add: jira_time_string_def jira_component_def nw nm dec_0 join_with_def)
  finally show ?thesis unfolding m_def w_def .
qed

lemma parse_format_value:
  assumes "0 \<le> h" "h < 10 ^ 21"
  shows "parseJiraTimeSpent (formatHoursAsJiraTime h) =
         of_int (math_floor h) + of_int (math_round ((h - of_int (math_floor h)) * 60)) / 60"
proof -
  define w where "w = math_floor h"
  define m where "m = math_round ((h - of_int w) * 60)"
  have w0: "0 \<le> w" and wn: "round_to_double w = w"
    using math_floor_props[OF assms] by (simp_all add: w_def)
  have f: "0 \<le> h - of_int w" "h - of_int w < 2 ^ 17"
    using math_floor_props[OF assms] unfolding w_def by linarith+
  have m0: "0 \<le> m" and "m \<le> 60 * 2 ^ 17" using math_round_minutes[OF f] by (simp_all add: m_def)
  then have mn: "round_to_double m = m" by (intro number_small) simp
  have zn: "round_to_double 0 = 0" by (simp add: number_small)
  have "parseJiraTimeSpent (formatHoursAsJiraTime h) =
        parseJiraTimeSpent (jira_time_string None (if w > 0 then Some w else None)
                    (if m > 0 then Some m else if w = 0 then Some 0 else None))"
    unfolding format_as_components[OF assms] m_def w_def ..
  also have "\<dots> = of_int w + of_int m / 60"
    using w0 m0 wn mn zn by (subst parse_components) (auto simp: component_value_def)
  finally show ?thesis unfolding m_def w_def .
qed

text \<open>
  Claim C1, as amended. For every \<open>h\<close> with \<open>0 \<le> h < 10^21\<close>,
  \<open>parseJiraTimeSpent (formatHoursAsJiraTime h)\<close> differs from \<open>h\<close> by at most \<open>1/60\<close>
  hour. The bound on \<open>h\<close> is needed: from \<open>10^21\<close> on the whole hours are written in
  scientific notation, and the parser reads the exponent as the hours.
\<close>

theorem jira_time_round_trip:
  assumes "0 \<le> h" "h < 10 ^ 21"
  shows "\<bar>parseJiraTimeSpent (formatHoursAsJiraTime h) - h\<bar> \<le> 1 / 60"
proof -
  have f: "0 \<le> h - of_int (math_floor h)" "h - of_int (math_floor h) < 2 ^ 17"
    using math_floor_props[OF assms] by linarith+
  from math_round_minutes(3)[OF f] show ?thesis
    unfolding parse_format_value[OF assms] by linarith
qed

theorem jira_time_round_trip_witness:
  "(0::real) \<le> 5 / 2 \<and> (5 / 2 :: real) < 10 ^ 21 \<and> formatHoursAsJiraTime (5 / 2) = ''2h 30m''
   \<and> \<bar>parseJiraTimeSpent (formatHoursAsJiraTime (5 / 2)) - 5 / 2\<bar> \<le> 1 / 60"
proof -
  have f: "formatHoursAsJiraTime (5 / 2) = ''2h 30m''"
    by (simp add: formatHoursAsJiraTime_def math_floor_def floor_to_double_def shift_of.simps
        math_round_def number_to_string_def dec.simps digit_char_def join_with_def)
  have "(0::real) \<le> 5 / 2" "(5 / 2 :: real) < 10 ^ 21" by simp_all
  from jira_time_round_trip[OF this] f show ?thesis by simp
qed

text \<open>The claim as stated, for all \<open>h \<ge> 0\<close>, fails at \<open>h = 10^21\<close>: the text is
  \<^verbatim>\<open>1e+21h\<close>, which is read as 21 hours.\<close>

theorem jira_time_round_trip_counterexample:
  "formatHoursAsJiraTime (10 ^ 21) = ''1e+21h''
   \<and> parseJiraTimeSpent (formatHoursAsJiraTime (10 ^ 21)) = 21
   \<and> \<not> \<bar>parseJiraTimeSpent (formatHoursAsJiraTime (10 ^ 21)) - 10 ^ 21\<bar> \<le> 1 / 60"
proof -
  have f: "formatHoursAsJiraTime (10 ^ 21) = ''1e+21h''"
    by (simp add: formatHoursAsJiraTime_def math_floor_def floor_to_double_def shift_of.simps
        math_round_def number_to_string_def dec.simps digit_char_def join_with_def
        strip_trailing_zeros_def)
  have p: "parseJiraTimeSpent ''1e+21h'' = 21"
    by (simp add: parseJiraTimeSpent_def is_digit_def parseInt10_def digits_value_def digit_val_def
        round_to_double_def shift_of.simps)
  show ?thesis unfolding f p by simp
qed

section \<open>Properties: file-name sanitizer\<close>

text \<open>What each of the three replacements guarantees, and when it changes nothing.\<close>

lemma underscore_not_safe: "\<not> is_safe_char CHR ''_''"
  by (simp add: is_safe_char_def)

lemma set_squeeze: "set (squeeze_underscores s) \<subseteq> set s"
proof (induction s rule: squeeze_underscores.induct)
  case (3 c d cs)
  show ?case
  proof (cases "c = CHR ''_'' \<and> d = CHR ''_''")
    case True
    with 3 have "set (squeeze_underscores (dropWhile (\<lambda>x. x = CHR ''_'') cs)) \<subseteq> set cs"
      using set_dropWhileD by fastforce
    with True show ?thesis by auto
  next
    case False
    with 3 show ?thesis by auto
  qed
qed simp_all

lemma squeeze_Nil_iff: "squeeze_underscores s = [] \<longleftrightarrow> s = []"
  by (induction s rule: squeeze_underscores.induct) auto

lemma hd_squeeze: "hd (squeeze_underscores s) = hd s"
  by (induction s rule: squeeze_underscores.induct) auto

lemma hd_dropWhile_us: "dropWhile (\<lambda>x. x = CHR ''_'') cs \<noteq> [] \<Longrightarrow> hd (dropWhile (\<lambda>x. x = CHR ''_'') cs) \<noteq> CHR ''_''"
  using hd_dropWhile[of "\<lambda>x. x = CHR ''_''" cs] by simp

lemma ndu_Cons: "no_double_underscore (c # s) \<longleftrightarrow> (s = [] \<or> (\<not> (c = CHR ''_'' \<and> hd s = CHR ''_'') \<and> no_double_underscore s))"
  by (cases s) auto

lemma no_double_squeeze: "no_double_underscore (squeeze_underscores s)"
proof (induction s rule: squeeze_underscores.induct)
  case (3 c d cs)
  show ?case
  proof (cases "c = CHR ''_'' \<and> d = CHR ''_''")
    case True
    with 3 show ?thesis
      using hd_dropWhile_us[of cs]
      by (auto simp: ndu_Cons squeeze_Nil_iff hd_squeeze)
  next
    case False
    with 3 show ?thesis
      by (auto simp: ndu_Cons squeeze_Nil_iff hd_squeeze)
  qed
qed simp_all

lemma squeeze_id: "no_double_underscore s \<Longrightarrow> squeeze_underscores s = s"
  by (induction s rule: squeeze_underscores.induct) auto

lemma ndu_tl: "no_double_underscore s \<Longrightarrow> no_double_underscore (tl s)"
  by (cases s) (auto simp: ndu_Cons)

lemma ndu_butlast: "no_double_underscore s \<Longrightarrow> no_double_underscore (butlast s)"
  by (induction s rule: no_double_underscore.induct) auto

lemma ndu_last_butlast: "no_double_underscore s \<Longrightarrow> butlast s \<noteq> [] \<Longrightarrow> last s = CHR ''_'' \<Longrightarrow> last (butlast s) \<noteq> CHR ''_''"
  by (induction s rule: no_double_underscore.induct) (auto split: if_splits)

lemma set_strip: "set (strip_edge_underscores s) \<subseteq> set s"
  by (auto simp: strip_edge_underscores_def Let_def split: list.splits if_splits dest: in_set_butlastD)

lemma ndu_strip: "no_double_underscore s \<Longrightarrow> no_double_underscore (strip_edge_underscores s)"
  using ndu_tl[of s] ndu_butlast[of s] ndu_butlast[of "tl s"]
  by (auto simp: strip_edge_underscores_def Let_def split: list.splits if_splits)

lemma hd_butlast: "butlast s \<noteq> [] \<Longrightarrow> hd (butlast s) = hd s"
  by (cases s) auto

lemma strip_edges_clean:
  assumes "no_double_underscore s" and "strip_edge_underscores s \<noteq> []"
  shows "hd (strip_edge_underscores s) \<noteq> CHR ''_'' \<and> last (strip_edge_underscores s) \<noteq> CHR ''_''"
proof -
  define t where "t = (case s of [] \<Rightarrow> [] | c # cs \<Rightarrow> if c = CHR ''_'' then cs else s)"
  have res: "strip_edge_underscores s = (if t \<noteq> [] \<and> last t = CHR ''_'' then butlast t else t)"
    by (simp add: strip_edge_underscores_def t_def Let_def)
  have ndu_t: "no_double_underscore t"
    using assms(1) ndu_tl[of s] by (auto simp: t_def split: list.splits)
  have t_ne: "t \<noteq> []" using assms(2) res by (auto split: if_splits)
  have hd_t: "hd t \<noteq> CHR ''_''"
    using assms(1) t_ne by (auto simp: t_def ndu_Cons split: list.splits if_splits)
  show ?thesis
  proof (cases "last t = CHR ''_''")
    case True
    with res t_ne have r: "strip_edge_underscores s = butlast t" by simp
    with assms(2) have "butlast t \<noteq> []" by simp
    with ndu_t True hd_t r show ?thesis
      by (simp add: hd_butlast ndu_last_butlast)
  next
    case False
    with res hd_t show ?thesis by simp
  qed
qed

lemma strip_id: "s = [] \<or> (hd s \<noteq> CHR ''_'' \<and> last s \<noteq> CHR ''_'') \<Longrightarrow> strip_edge_underscores s = s"
  by (cases s) (auto simp: strip_edge_underscores_def Let_def)

lemma replace_unsafe_chars: "c \<in> set (replace_unsafe s) \<Longrightarrow> is_safe_char c \<or> c = CHR ''_''"
  by (auto simp: replace_unsafe_def)

lemma replace_unsafe_id: "\<forall>c\<in>set s. is_safe_char c \<or> c = CHR ''_'' \<Longrightarrow> replace_unsafe s = s"
  by (induction s) (auto simp: replace_unsafe_def underscore_not_safe)

text \<open>
  Claim C10. For every string \<open>s\<close>, \<open>sanitizeFileName s\<close> consists of characters of
  \<^verbatim>\<open>[a-zA-Z0-9.-]\<close> and underscores, has no two underscores in a row, and neither starts
  nor ends with an underscore; and \<open>sanitizeFileName\<close> is idempotent.
\<close>

theorem sanitizeFileName_shape_idempotent:
  "(\<forall>c\<in>set (sanitizeFileName s). is_safe_char c \<or> c = CHR ''_'')
   \<and> no_double_underscore (sanitizeFileName s)
   \<and> (sanitizeFileName s \<noteq> [] \<longrightarrow>
        hd (sanitizeFileName s) \<noteq> CHR ''_'' \<and> last (sanitizeFileName s) \<noteq> CHR ''_'')
   \<and> sanitizeFileName (sanitizeFileName s) = sanitizeFileName s"
proof -
  let ?q = "squeeze_underscores (replace_unsafe s)"
  let ?r = "sanitizeFileName s"
  have r: "?r = strip_edge_underscores ?q" by (simp add: sanitizeFileName_def)
  have chars: "\<forall>c\<in>set ?r. is_safe_char c \<or> c = CHR ''_''"
    using set_strip[of ?q] set_squeeze[of "replace_unsafe s"] replace_unsafe_chars[of _ s]
    unfolding r by blast
  have ndu: "no_double_underscore ?r"
    unfolding r by (rule ndu_strip) (rule no_double_squeeze)
  have edges: "?r \<noteq> [] \<longrightarrow> hd ?r \<noteq> CHR ''_'' \<and> last ?r \<noteq> CHR ''_''"
    unfolding r using strip_edges_clean[OF no_double_squeeze] by blast
  have "sanitizeFileName ?r = strip_edge_underscores (squeeze_underscores (replace_unsafe ?r))"
    by (simp add: sanitizeFileName_def)
  also have "replace_unsafe ?r = ?r" using chars by (rule replace_unsafe_id)
  also have "squeeze_underscores ?r = ?r" using ndu by (rule squeeze_id)
  also have "strip_edge_underscores ?r = ?r" using edges by (intro strip_id) blast
  finally have idem: "sanitizeFileName ?r = ?r" .
  from chars ndu edges idem show ?thesis by blast
qed

theorem sanitizeFileName_shape_idempotent_witness:
  "sanitizeFileName ''__my  report (v2)!.txt__'' = ''my_report_v2_.txt''
   \<and> no_double_underscore (sanitizeFileName ''__my  report (v2)!.txt__'')
   \<and> hd (sanitizeFileName ''__my  report (v2)!.txt__'') = CHR ''m''
   \<and> sanitizeFileName (sanitizeFileName ''__my  report (v2)!.txt__'') = ''my_report_v2_.txt''"
proof -
  have v: "sanitizeFileName ''__my  report (v2)!.txt__'' = ''my_report_v2_.txt''"
    by (simp add: sanitizeFileName_def replace_unsafe_def is_safe_char_def strip_edge_underscores_def)
  show ?thesis
    using sanitizeFileName_shape_idempotent[of "''__my  report (v2)!.txt__''"]
    unfolding v by simp
qed

section \<open>Properties: schema validation\<close>

text \<open>Whether a parse succeeds does not depend on the path at which it runs; what each kind
  of schema accepts.\<close>

lemma success_iff: "success r \<longleftrightarrow> \<not> isl r"
  by (cases r) (simp_all add: success_def)

lemma isl_collect: "isl (collect rs) \<longleftrightarrow> (\<exists>r\<in>set rs. isl r)"
  by (induction rs) (auto split: sum.splits)

lemma isl_map_sum: "isl (map_sum f g r) = isl r"
  by (cases r) simp_all

lemma string_issue_Nil:
  "string_issue fm p s c = [] \<longleftrightarrow> (case c of Email \<Rightarrow> is_email fm s | Url \<Rightarrow> is_url fm s)"
  by (cases c) simp_all

lemma number_issue_Nil:
  "number_issue p n c = [] \<longleftrightarrow> (case c of Positive \<Rightarrow> num_gt n 0 | Max m \<Rightarrow> num_le n (of_int m))"
  by (cases c) simp_all

lemma isl_issues: "isl (case es of [] \<Rightarrow> Inr v | e # r \<Rightarrow> Inl (e # r)) \<longleftrightarrow> es \<noteq> []"
  by (cases es) simp_all

lemma accept_string:
  "\<not> isl (parse_schema fm (ZString cs) p v) \<longleftrightarrow>
   (\<exists>s. v = JStr s \<and> (\<forall>c\<in>set cs. case c of Email \<Rightarrow> is_email fm s | Url \<Rightarrow> is_url fm s))"
  by (cases v) (simp_all add: isl_issues string_issue_Nil)

lemma accept_number:
  "\<not> isl (parse_schema fm (ZNumber cs) p v) \<longleftrightarrow>
   (\<exists>n. v = JNum n \<and> n \<noteq> NaN \<and>
        (\<forall>c\<in>set cs. case c of Positive \<Rightarrow> num_gt n 0 | Max m \<Rightarrow> num_le n (of_int m)))"
  by (cases v) (simp_all add: isl_issues number_issue_Nil)

lemma accept_boolean: "\<not> isl (parse_schema fm ZBoolean p v) \<longleftrightarrow> (\<exists>b. v = JBool b)"
  by (cases v) simp_all

lemma accept_enum:
  "\<not> isl (parse_schema fm (ZEnum opts) p v) \<longleftrightarrow> (\<exists>s. v = JStr s \<and> s \<in> set opts)"
  by (cases v) simp_all

lemma isl_rewrap: "isl (case r of Inl es \<Rightarrow> Inl es | Inr y \<Rightarrow> Inr (f y)) = isl r"
  by (cases r) simp_all

lemma accept_array_at:
  "\<not> isl (parse_schema fm (ZArray s) p v) \<longleftrightarrow>
   (\<exists>xs. v = JArr xs \<and> (\<forall>(i, x)\<in>set (enumerate 0 xs). \<not> isl (parse_schema fm s (p @ [Index i]) x)))"
  by (cases v) (auto simp: isl_rewrap isl_collect)

lemma accept_object_at:
  "\<not> isl (parse_schema fm (ZObject shape) p v) \<longleftrightarrow>
   (\<exists>fs. v = JObj fs \<and>
      (\<forall>(k, s)\<in>set shape. \<not> isl (parse_schema fm s (p @ [Key k]) (get_prop fs k))))"
  by (cases v) (auto simp: isl_rewrap isl_collect isl_map_sum)

lemma accept_optional:
  "\<not> isl (parse_schema fm (ZOptional s) p v) \<longleftrightarrow> v = JUndefined \<or> \<not> isl (parse_schema fm s p v)"
  by simp

lemma isl_parse_path: "isl (parse_schema fm s p v) = isl (parse_schema fm s q v)"
proof (induction s arbitrary: p q v)
  case (ZString cs)
  show ?case using accept_string[of fm cs p v] accept_string[of fm cs q v] by blast
next
  case (ZNumber cs)
  show ?case using accept_number[of fm cs p v] accept_number[of fm cs q v] by blast
next
  case ZBoolean
  show ?case using accept_boolean[of fm p v] accept_boolean[of fm q v] by blast
next
  case (ZEnum opts)
  show ?case using accept_enum[of fm opts p v] accept_enum[of fm opts q v] by blast
next
  case ZAny
  show ?case by simp
next
  case (ZArray s)
  have "isl (parse_schema fm s (p @ [Index i]) x) = isl (parse_schema fm s (q @ [Index i]) x)" for i x
    by (rule ZArray)
  then have "(\<not> isl (parse_schema fm (ZArray s) p v)) = (\<not> isl (parse_schema fm (ZArray s) q v))"
    unfolding accept_array_at by simp
  then show ?case unfolding Not_eq_iff .
next
  case (ZObject shape)
  have "isl (parse_schema fm s (p @ [Key k]) x) = isl (parse_schema fm s (q @ [Key k]) x)"
    if "(k, s) \<in> set shape" for k s x
    using ZObject[of "(k, s)" s] that by simp
  then have "(\<forall>(k, s)\<in>set shape. \<not> isl (parse_schema fm s (p @ [Key k]) (get_prop fs k)))
           = (\<forall>(k, s)\<in>set shape. \<not> isl (parse_schema fm s (q @ [Key k]) (get_prop fs k)))" for fs
    by blast
  then have "(\<not> isl (parse_schema fm (ZObject shape) p v)) = (\<not> isl (parse_schema fm (ZObject shape) q v))"
    unfolding accept_object_at by simp
  then show ?case unfolding Not_eq_iff .
next
  case (ZOptional s)
  then show ?case by simp
qed

lemma accept_array:
  "\<not> isl (parse_schema fm (ZArray s) p v) \<longleftrightarrow>
   (\<exists>xs. v = JArr xs \<and> (\<forall>x\<in>set xs. \<not> isl (parse_schema fm s [] x)))"
proof -
  have "(\<forall>(i, x)\<in>set (enumerate 0 xs). \<not> isl (parse_schema fm s [] x))
        = (\<forall>x\<in>set xs. \<not> isl (parse_schema fm s [] x))" for xs
  proof -
    have "set xs = snd ` set (enumerate 0 xs)"
      by (metis map_snd_enumerate set_map)
    then show ?thesis by force
  qed
  then show ?thesis
    unfolding accept_array_at isl_parse_path[of fm s "p @ [Index i]" _ "[]" for i] by simp
qed

lemma accept_object:
  "\<not> isl (parse_schema fm (ZObject shape) p v) \<longleftrightarrow>
   (\<exists>fs. v = JObj fs \<and> (\<forall>(k, s)\<in>set shape. \<not> isl (parse_schema fm s [] (get_prop fs k))))"
  unfolding accept_object_at isl_parse_path[of fm _ "p @ [Key k]" _ "[]" for k] ..


lemma accepts_iff: "accepts fm sch v \<longleftrightarrow> \<not> isl (parse_schema fm sch [] v)"
  by (simp add: accepts_def safeParse_def success_iff)

lemma accepts_string:
  "accepts fm (ZString cs) v \<longleftrightarrow>
   (\<exists>s. v = JStr s \<and> (\<forall>c\<in>set cs. case c of Email \<Rightarrow> is_email fm s | Url \<Rightarrow> is_url fm s))"
  unfolding accepts_iff by (rule accept_string)

lemma accepts_number:
  "accepts fm (ZNumber cs) v \<longleftrightarrow>
   (\<exists>n. v = JNum n \<and> n \<noteq> NaN \<and>
        (\<forall>c\<in>set cs. case c of Positive \<Rightarrow> num_gt n 0 | Max m \<Rightarrow> num_le n (of_int m)))"
  unfolding accepts_iff by (rule accept_number)

lemma accepts_boolean: "accepts fm ZBoolean v \<longleftrightarrow> (\<exists>b. v = JBool b)"
  unfolding accepts_iff by (rule accept_boolean)

lemma accepts_enum: "accepts fm (ZEnum opts) v \<longleftrightarrow> (\<exists>s. v = JStr s \<and> s \<in> set opts)"
  unfolding accepts_iff by (rule accept_enum)

lemma accepts_any: "accepts fm ZAny v"
  unfolding accepts_iff by simp

lemma accepts_optional: "accepts fm (ZOptional s) v \<longleftrightarrow> v = JUndefined \<or> accepts fm s v"
  unfolding accepts_iff by (rule accept_optional)

lemma accepts_array:
  "accepts fm (ZArray s) v \<longleftrightarrow> (\<exists>xs. v = JArr xs \<and> (\<forall>x\<in>set xs. accepts fm s x))"
  unfolding accepts_iff by (rule accept_array)

lemma accepts_object:
  "accepts fm (ZObject shape) v \<longleftrightarrow>
   (\<exists>fs. v = JObj fs \<and> (\<forall>(k, s)\<in>set shape. accepts fm s (get_prop fs k)))"
  unfolding accepts_iff by (rule accept_object)

lemmas accepts_simps =
  accepts_string accepts_number accepts_boolean accepts_enum accepts_any accepts_optional
  accepts_array accepts_object

text \<open>The validator raises exactly when the value does not pass the schema.\<close>

lemma raises_validateData: "raises (validateData fm sch v msg) \<longleftrightarrow> \<not> accepts fm sch v"
  by (cases "safeParse fm sch v")
     (simp_all add: validateData_def raises_def accepts_def success_def Let_def)

text \<open>A failed parse reports at least one issue.\<close>

lemma collect_issues_nonempty:
  "collect rs = Inl es \<Longrightarrow> (\<And>e. Inl e \<in> set rs \<Longrightarrow> e \<noteq> []) \<Longrightarrow> es \<noteq> []"
  by (induction rs arbitrary: es) (auto split: sum.splits)

lemma parse_issues_nonempty: "parse_schema fm s p v = Inl es \<Longrightarrow> es \<noteq> []"
proof (induction s arbitrary: p v es)
  case (ZArray s)
  show ?case
  proof (cases v)
    case (JArr xs)
    let ?rs = "map (\<lambda>(i, x). parse_schema fm s (p @ [Index i]) x) (enumerate 0 xs)"
    from ZArray.prems JArr have c: "collect ?rs = Inl es"
      by (simp split: sum.splits)
    have "e \<noteq> []" if "Inl e \<in> set ?rs" for e
    proof -
      from that obtain i x where "parse_schema fm s (p @ [Index i]) x = Inl e"
        by auto
      then show ?thesis by (rule ZArray.IH)
    qed
    with c show ?thesis by (rule collect_issues_nonempty)
  qed (use ZArray.prems in auto)
next
  case (ZObject shape)
  show ?case
  proof (cases v)
    case (JObj fs)
    let ?rs = "map (\<lambda>(k, s). map_sum id (Pair k) (parse_schema fm s (p @ [Key k]) (get_prop fs k))) shape"
    from ZObject.prems JObj have c: "collect ?rs = Inl es"
      by (simp split: sum.splits)
    have "e \<noteq> []" if "Inl e \<in> set ?rs" for e
    proof -
      from that obtain k s where ks: "(k, s) \<in> set shape"
        and e: "map_sum id (Pair k) (parse_schema fm s (p @ [Key k]) (get_prop fs k)) = Inl e"
        by auto
      then have "parse_schema fm s (p @ [Key k]) (get_prop fs k) = Inl e"
        by (cases "parse_schema fm s (p @ [Key k]) (get_prop fs k)") simp_all
      with ZObject.IH[of "(k, s)" s] ks show ?thesis by auto
    qed
    with c show ?thesis by (rule collect_issues_nonempty)
  qed (use ZObject.prems in auto)
qed (auto split: jsval.splits list.splits if_splits)

section \<open>Properties: entities, configuration and requests\<close>

text \<open>Property reads on explicit objects, and the example values pass their schemas.\<close>

lemma get_prop_Cons:
  "get_prop ((k, x) # fs) k' = (if k = k' then x else get_prop fs k')"
  by (simp add: get_prop_def)

lemma get_prop_Nil: "get_prop [] k = JUndefined"
  by (simp add: get_prop_def)

lemma sample_user_ok: "accepts example_formats UserSchema sample_user"
  by (auto simp: UserSchema_def sample_user_def accepts_simps get_prop_Cons get_prop_Nil example_formats_def)

lemma sample_issue_ok: "accepts example_formats IssueSchema sample_issue"
  by (simp add: IssueSchema_def sample_issue_def sample_project_def accepts_simps get_prop_Cons get_prop_Nil)

lemma sample_entry_ok:
  "0 < s \<Longrightarrow> 0 < h \<Longrightarrow> accepts example_formats TimesheetEntrySchema (sample_entry s h)"
  by (simp add: TimesheetEntrySchema_def sample_entry_def sample_project_def accepts_simps
      get_prop_Cons get_prop_Nil sample_user_ok sample_issue_ok)

text \<open>
  Claim C2, as amended. Every value accepted by the timesheet-entry validation (the type
  guard \<open>isTimesheetEntry\<close>, or \<open>validateTimesheetEntry\<close> returning) is an object whose
  \<open>timeSpentSeconds\<close> and \<open>timeSpentHours\<close> are both numbers greater than zero. The
  schema checks each of the two fields on its own; it does not relate one to the other.
\<close>

theorem timesheet_entry_positive:
  assumes "isTimesheetEntry fm v \<or> \<not> raises (validateTimesheetEntry fm v)"
  shows "\<exists>fs s h. v = JObj fs
           \<and> get_prop fs ''timeSpentSeconds'' = JNum s \<and> num_gt s 0
           \<and> get_prop fs ''timeSpentHours'' = JNum h \<and> num_gt h 0"
proof -
  from assms have "accepts fm TimesheetEntrySchema v"
    by (auto simp: isTimesheetEntry_def validateTimesheetEntry_def raises_validateData accepts_def)
  then show ?thesis
    by (auto simp: TimesheetEntrySchema_def accepts_object accepts_number)
qed

theorem timesheet_entry_positive_witness:
  "isTimesheetEntry example_formats (sample_entry 3600 1)
   \<and> (\<exists>fs s h. sample_entry 3600 1 = JObj fs
           \<and> get_prop fs ''timeSpentSeconds'' = JNum s \<and> num_gt s 0
           \<and> get_prop fs ''timeSpentHours'' = JNum h \<and> num_gt h 0)"
proof -
  have a: "isTimesheetEntry example_formats (sample_entry 3600 1)"
    using sample_entry_ok[of 3600 1] by (simp add: isTimesheetEntry_def accepts_def)
  with timesheet_entry_positive[of example_formats "sample_entry 3600 1"] show ?thesis by blast
qed

text \<open>The claim as stated fails: an entry of 3600 seconds and 5 hours is accepted.\<close>

theorem timesheet_entry_hours_counterexample:
  "isTimesheetEntry example_formats (sample_entry 3600 5)
   \<and> \<not> raises (validateTimesheetEntry example_formats (sample_entry 3600 5))
   \<and> \<not> hours_match_seconds (sample_entry 3600 5)"
proof -
  have a: "accepts example_formats TimesheetEntrySchema (sample_entry 3600 5)"
    by (rule sample_entry_ok) simp_all
  have b: "\<not> hours_match_seconds (sample_entry 3600 5)"
    by (simp add: hours_match_seconds_def sample_entry_def get_prop_Cons)
  from a b show ?thesis
    by (simp add: isTimesheetEntry_def validateTimesheetEntry_def raises_validateData accepts_def)
qed

lemma level_accepted_dimension_known:
  "accepts fm GroupingLevelSchema l \<Longrightarrow> dimension_known l"
  by (auto simp: GroupingLevelSchema_def GroupingDimensionSchema_def accepts_object accepts_enum
      dimension_known_def)

lemma config_accepted_levels:
  "accepts fm GroupingConfigSchema v \<Longrightarrow> \<forall>l\<in>set (levels_of v). accepts fm GroupingLevelSchema l"
  by (auto simp: GroupingConfigSchema_def accepts_object accepts_array levels_of_def)

lemma sample_level_ok:
  assumes "d \<in> set [''project'', ''user'', ''issueType'', ''status'', ''date'', ''issue'']"
    and "case t of None \<Rightarrow> True | Some x \<Rightarrow> accepts fm DateGroupingTypeSchema x"
  shows "accepts fm GroupingLevelSchema (sample_level d t)"
  using assms
  by (cases t)
     (auto simp: GroupingLevelSchema_def GroupingDimensionSchema_def SortBySchema_def
        SortOrderSchema_def sample_level_def accepts_object accepts_enum accepts_optional
        accepts_boolean get_prop_Cons get_prop_Nil)

lemma sample_config_ok:
  "\<forall>l\<in>set ls. accepts fm GroupingLevelSchema l \<Longrightarrow> accepts fm GroupingConfigSchema (sample_config ls)"
  by (auto simp: GroupingConfigSchema_def sample_config_def accepts_object accepts_array
      accepts_boolean get_prop_Cons get_prop_Nil)

text \<open>
  Claim C3, as amended. \<open>validateGroupingConfig\<close> raises whenever some element of
  \<open>levels\<close> has a dimension that is not one of \<^verbatim>\<open>project\<close>, \<^verbatim>\<open>user\<close>,
  \<^verbatim>\<open>issueType\<close>, \<^verbatim>\<open>status\<close>, \<^verbatim>\<open>date\<close>, \<^verbatim>\<open>issue\<close>. The level schema declares
  \<open>dateGroupingType\<close> optional and independent of \<open>dimension\<close>, so the two other
  conditions of the claim are not checked.
\<close>

theorem grouping_config_unknown_dimension_raises:
  assumes "\<exists>l\<in>set (levels_of v). \<not> dimension_known l"
  shows "raises (validateGroupingConfig fm v)"
  using assms config_accepted_levels[of fm v] level_accepted_dimension_known[of fm]
  unfolding validateGroupingConfig_def raises_validateData by blast

theorem grouping_config_unknown_dimension_raises_witness:
  "(\<exists>l\<in>set (levels_of (sample_config [sample_level ''team'' None])). \<not> dimension_known l)
   \<and> raises (validateGroupingConfig example_formats (sample_config [sample_level ''team'' None]))"
proof -
  have "\<exists>l\<in>set (levels_of (sample_config [sample_level ''team'' None])). \<not> dimension_known l"
    by (simp add: levels_of_def sample_config_def sample_level_def dimension_known_def get_prop_Cons)
  with grouping_config_unknown_dimension_raises[of "sample_config [sample_level ''team'' None]" example_formats]
  show ?thesis by blast
qed

text \<open>The claim as stated fails: a configuration with a \<^verbatim>\<open>project\<close> level that carries
  a date-grouping type, and a \<^verbatim>\<open>date\<close> level that carries none, is accepted.\<close>

theorem grouping_config_date_type_counterexample:
  "malformed_grouping
     (sample_config [sample_level ''project'' (Some (JStr ''day'')), sample_level ''date'' None])
   \<and> date_type_without_date (sample_level ''project'' (Some (JStr ''day'')))
   \<and> date_without_date_type (sample_level ''date'' None)
   \<and> \<not> raises (validateGroupingConfig example_formats
         (sample_config [sample_level ''project'' (Some (JStr ''day'')), sample_level ''date'' None]))"
proof -
  have m1: "date_type_without_date (sample_level ''project'' (Some (JStr ''day'')))"
    by (simp add: date_type_without_date_def sample_level_def get_prop_Cons)
  have m2: "date_without_date_type (sample_level ''date'' None)"
    by (simp add: date_without_date_type_def sample_level_def get_prop_Cons get_prop_Nil)
  have m: "malformed_grouping
     (sample_config [sample_level ''project'' (Some (JStr ''day'')), sample_level ''date'' None])"
    using m1 by (simp add: malformed_grouping_def levels_of_def sample_config_def get_prop_Cons)
  have l1: "accepts example_formats GroupingLevelSchema (sample_level ''project'' (Some (JStr ''day'')))"
    by (rule sample_level_ok) (simp_all add: DateGroupingTypeSchema_def accepts_enum)
  have l2: "accepts example_formats GroupingLevelSchema (sample_level ''date'' None)"
    by (rule sample_level_ok) simp_all
  have "accepts example_formats GroupingConfigSchema
     (sample_config [sample_level ''project'' (Some (JStr ''day'')), sample_level ''date'' None])"
    by (rule sample_config_ok) (simp add: l1 l2)
  with m m1 m2 show ?thesis
    by (simp add: validateGroupingConfig_def raises_validateData)
qed

text \<open>
  Claim C7. A configuration whose list of levels is empty is accepted by both
  \<open>isGroupingConfig\<close> and \<open>validateGroupingConfig\<close>, which returns it.
\<close>

theorem empty_levels_accepted:
  "isGroupingConfig fm (sample_config [])
   \<and> validateGroupingConfig fm (sample_config []) = Inr (sample_config [])"
  by (simp add: isGroupingConfig_def validateGroupingConfig_def validateData_def safeParse_def
      success_def GroupingConfigSchema_def sample_config_def get_prop_def has_prop_def)

text \<open>
  Claim C8. For every value, the type guard and the throwing validator over the same
  schema agree: \<open>isGroupingConfig\<close> holds exactly when \<open>validateGroupingConfig\<close> returns
  without raising, and \<open>isTimesheetEntry\<close> exactly when \<open>validateTimesheetEntry\<close> does.
\<close>

theorem guards_agree_with_validators:
  "(isGroupingConfig fm x \<longleftrightarrow> \<not> raises (validateGroupingConfig fm x))
   \<and> (isTimesheetEntry fm x \<longleftrightarrow> \<not> raises (validateTimesheetEntry fm x))"
  by (simp add: isGroupingConfig_def isTimesheetEntry_def validateGroupingConfig_def
      validateTimesheetEntry_def raises_validateData accepts_def)

text \<open>
  Claim C9. If \<open>isTimesheetsRequest\<close> holds of a value, the value is an object whose
  \<open>page\<close>, when present, is a number greater than zero, and whose \<open>limit\<close>, when present,
  is a number greater than zero and at most 1000; and \<open>filters\<close> and \<open>grouping\<close> are
  not constrained: a request with any two values there is accepted.
\<close>

theorem timesheets_request_page_limit:
  "(isTimesheetsRequest fm v \<longrightarrow>
      (\<exists>fs. v = JObj fs
         \<and> (get_prop fs ''page'' = JUndefined \<or> (\<exists>n. get_prop fs ''page'' = JNum n \<and> num_gt n 0))
         \<and> (get_prop fs ''limit'' = JUndefined
              \<or> (\<exists>n. get_prop fs ''limit'' = JNum n \<and> num_gt n 0 \<and> num_le n 1000))))
   \<and> isTimesheetsRequest fm (JObj [(''filters'', f), (''grouping'', g)])"
proof -
  have m: "isTimesheetsRequest fm w = accepts fm TimesheetsRequestSchema w" for w
    by (simp add: isTimesheetsRequest_def accepts_def)
  have "isTimesheetsRequest fm (JObj [(''filters'', f), (''grouping'', g)])"
    unfolding m
    by (simp add: TimesheetsRequestSchema_def accepts_object accepts_any accepts_optional
        get_prop_Cons get_prop_Nil)
  moreover have "isTimesheetsRequest fm v \<longrightarrow>
      (\<exists>fs. v = JObj fs
         \<and> (get_prop fs ''page'' = JUndefined \<or> (\<exists>n. get_prop fs ''page'' = JNum n \<and> num_gt n 0))
         \<and> (get_prop fs ''limit'' = JUndefined
              \<or> (\<exists>n. get_prop fs ''limit'' = JNum n \<and> num_gt n 0 \<and> num_le n 1000)))"
    unfolding m
    by (auto simp: TimesheetsRequestSchema_def accepts_object accepts_optional accepts_number)
  ultimately show ?thesis by blast
qed

theorem timesheets_request_page_limit_witness:
  "isTimesheetsRequest example_formats
     (JObj [(''filters'', JStr ''anything''), (''grouping'', JNull),
            (''page'', JNum (Finite 2)), (''limit'', JNum (Finite 1000))])
   \<and> (\<exists>fs. JObj [(''filters'', JStr ''anything''), (''grouping'', JNull),
                  (''page'', JNum (Finite 2)), (''limit'', JNum (Finite 1000))] = JObj fs
         \<and> (\<exists>n. get_prop fs ''page'' = JNum n \<and> num_gt n 0)
         \<and> (\<exists>n. get_prop fs ''limit'' = JNum n \<and> num_gt n 0 \<and> num_le n 1000))
   \<and> \<not> isTimesheetsRequest example_formats
     (JObj [(''filters'', JStr ''anything''), (''grouping'', JNull),
            (''page'', JNum (Finite 2)), (''limit'', JNum (Finite 1001))])
   \<and> \<not> isTimesheetsRequest example_formats
     (JObj [(''filters'', JStr ''anything''), (''grouping'', JNull),
            (''page'', JNum (Finite 0))])
   \<and> isTimesheetsRequest example_formats (JObj [(''filters'', JNum (Finite 7)), (''grouping'', JBool False)])"
proof -
  have m: "isTimesheetsRequest fm w = accepts fm TimesheetsRequestSchema w" for fm w
    by (simp add: isTimesheetsRequest_def accepts_def)
  have a: "isTimesheetsRequest example_formats
     (JObj [(''filters'', JStr ''anything''), (''grouping'', JNull),
            (''page'', JNum (Finite 2)), (''limit'', JNum (Finite 1000))])"
    unfolding m
    by (simp add: TimesheetsRequestSchema_def accepts_simps get_prop_Cons get_prop_Nil)
  have a': "\<exists>fs. JObj [(''filters'', JStr ''anything''), (''grouping'', JNull),
                  (''page'', JNum (Finite 2)), (''limit'', JNum (Finite 1000))] = JObj fs
         \<and> (\<exists>n. get_prop fs ''page'' = JNum n \<and> num_gt n 0)
         \<and> (\<exists>n. get_prop fs ''limit'' = JNum n \<and> num_gt n 0 \<and> num_le n 1000)"
    using a timesheets_request_page_limit[of example_formats
        "JObj [(''filters'', JStr ''anything''), (''grouping'', JNull),
            (''page'', JNum (Finite 2)), (''limit'', JNum (Finite 1000))]"]
    by (auto simp: get_prop_Cons)
  have b: "\<not> isTimesheetsRequest example_formats
     (JObj [(''filters'', JStr ''anything''), (''grouping'', JNull),
            (''page'', JNum (Finite 2)), (''limit'', JNum (Finite 1001))])"
    using timesheets_request_page_limit[of example_formats
        "JObj [(''filters'', JStr ''anything''), (''grouping'', JNull),
            (''page'', JNum (Finite 2)), (''limit'', JNum (Finite 1001))]"]
    by (auto simp: get_prop_Cons)
  have c: "\<not> isTimesheetsRequest example_formats
     (JObj [(''filters'', JStr ''anything''), (''grouping'', JNull),
            (''page'', JNum (Finite 0))])"
    using timesheets_request_page_limit[of example_formats
        "JObj [(''filters'', JStr ''anything''), (''grouping'', JNull), (''page'', JNum (Finite 0))]"]
    by (auto simp: get_prop_Cons)
  have d: "isTimesheetsRequest example_formats (JObj [(''filters'', JNum (Finite 7)), (''grouping'', JBool False)])"
    using timesheets_request_page_limit[of example_formats JNull "JNum (Finite 7)" "JBool False"]
    by simp
  from a a' b c d show ?thesis by blast
qed

lemma sample_entry_zero_seconds:
  "safeParse example_formats TimesheetEntrySchema (sample_entry 0 1) =
     Inl [\<lparr>path = [Key ''timeSpentSeconds''], message = ''Number must be greater than 0''\<rparr>]"
  by (simp add: safeParse_def TimesheetEntrySchema_def IssueSchema_def UserSchema_def
      sample_entry_def sample_issue_def sample_user_def sample_project_def
      get_prop_def has_prop_def example_formats_def)

text \<open>
  Claim C4. For every schema and input, \<open>validateData\<close> returns the parsed value when
  the input matches the schema; otherwise it raises an error whose message ends with the
  \<^verbatim>\<open>path: message\<close> texts of the issues, joined by commas, of which there is at least
  one. The function is pure: its result is all it does.
\<close>

theorem validateData_returns_or_raises:
  "(case safeParse fm sch v of
      Inr result \<Rightarrow> validateData fm sch v msg = Inr result
    | Inl errors \<Rightarrow>
        errors \<noteq> []
        \<and> (\<exists>prefix. validateData fm sch v msg =
              Inl (Error (prefix @ '': '' @ join_with '', '' (map issue_text errors)))))"
proof (cases "safeParse fm sch v")
  case (Inl errors)
  then have "errors \<noteq> []"
    unfolding safeParse_def by (rule parse_issues_nonempty)
  moreover have "\<exists>prefix. validateData fm sch v msg =
              Inl (Error (prefix @ '': '' @ join_with '', '' (map issue_text errors)))"
    using Inl by (cases msg) (auto simp: validateData_def Let_def)
  ultimately show ?thesis using Inl by simp
next
  case (Inr result)
  then show ?thesis by (simp add: validateData_def)
qed


theorem validateData_returns_or_raises_witness:
  "safeParse example_formats TimesheetEntrySchema (sample_entry 0 1) =
     Inl [\<lparr>path = [Key ''timeSpentSeconds''], message = ''Number must be greater than 0''\<rparr>]
   \<and> (\<exists>prefix. validateData example_formats TimesheetEntrySchema (sample_entry 0 1)
                   (Some ''Invalid timesheet entry'') =
                 Inl (Error (prefix @ '': timeSpentSeconds: Number must be greater than 0'')))
   \<and> safeParse example_formats GroupingConfigSchema (sample_config []) = Inr (sample_config [])
   \<and> validateData example_formats GroupingConfigSchema (sample_config []) None = Inr (sample_config [])"
proof -
  note e = sample_entry_zero_seconds
  have g: "safeParse example_formats GroupingConfigSchema (sample_config []) = Inr (sample_config [])"
    by (simp add: safeParse_def GroupingConfigSchema_def sample_config_def get_prop_def has_prop_def)
  have "\<exists>prefix. validateData example_formats TimesheetEntrySchema (sample_entry 0 1)
                   (Some ''Invalid timesheet entry'') =
                 Inl (Error (prefix @ '': timeSpentSeconds: Number must be greater than 0''))"
    using validateData_returns_or_raises[of example_formats TimesheetEntrySchema "sample_entry 0 1"
        "Some ''Invalid timesheet entry''"]
    unfolding e by (simp add: issue_text_def join_with_def)
  moreover have "validateData example_formats GroupingConfigSchema (sample_config []) None = Inr (sample_config [])"
    using validateData_returns_or_raises[of example_formats GroupingConfigSchema "sample_config []" None]
    unfolding g by simp
  ultimately show ?thesis using e g by simp
qed


section \<open>Properties: group tree\<close>

text \<open>A sound tree has the aggregates of its subtrees at every node; the builder's levels
  are sound, sorting permutes siblings, and collapsing removes only nodes without entries,
  which contribute nothing to their parents.\<close>

lemma sum_list_concat_map:
  "\<forall>k\<in>set ks. f k = sum_list (map g (h k)) \<Longrightarrow>
   sum_list (map f ks) = sum_list (map g (concat (map h ks)))"
  by (induction ks) simp_all

lemma sum_list_length_concat:
  "\<forall>k\<in>set ks. c k = length (h k) \<Longrightarrow> sum_list (map c ks) = length (concat (map h ks))"
  by (induction ks) simp_all

lemma node_sound_subtree:
  "node_sound es n \<Longrightarrow>
   totalHours n = sum_list (map (hours_of es) (subtree_entries n))
   \<and> entryCount n = length (subtree_entries n)"
proof (induction n)
  case (GroupNode i d v n l t c kids ens x m)
  from GroupNode.prems have kids: "\<forall>k\<in>set kids. node_sound es k" by simp
  with GroupNode.IH have
    "\<forall>k\<in>set kids. totalHours k = sum_list (map (hours_of es) (subtree_entries k))"
    "\<forall>k\<in>set kids. entryCount k = length (subtree_entries k)"
    by blast+
  then have "sum_list (map totalHours kids) = sum_list (map (hours_of es) (concat (map subtree_entries kids)))"
    and "sum_list (map entryCount kids) = length (concat (map subtree_entries kids))"
    by (simp_all add: sum_list_concat_map sum_list_length_concat)
  with GroupNode.prems show ?case by simp
qed

lemma node_sound_nodes: "node_sound es n \<Longrightarrow> m \<in> set (nodes_of n) \<Longrightarrow> node_sound es m"
proof (induction n)
  case (GroupNode i d v n l t c kids ens x mt)
  from GroupNode.prems(2) consider "m = GroupNode i d v n l t c kids ens x mt"
    | k where "k \<in> set kids" "m \<in> set (nodes_of k)"
    by auto
  then show ?case
  proof cases
    case 1
    with GroupNode.prems(1) show ?thesis by blast
  next
    case 2
    from GroupNode.prems(1) 2(1) have "node_sound es k" by simp
    with GroupNode.IH 2 show ?thesis by blast
  qed
qed

lemma node_sound_fields:
  "node_sound es n \<Longrightarrow>
   totalHours n = sum_list (map totalHours (children n)) + sum_list (map (hours_of es) (entries n))
   \<and> entryCount n = sum_list (map entryCount (children n)) + length (entries n)"
  by (cases n) simp

lemma hours_of_entry:
  "distinct (map entry_id es) \<Longrightarrow> e \<in> set es \<Longrightarrow> hours_of es (entry_id e) = timeSpentHours e"
proof (induction es)
  case (Cons a es)
  then show ?case by (auto simp: hours_of_def image_iff)
qed simp

lemma sum_hours_of:
  "distinct (map entry_id es) \<Longrightarrow> set b \<subseteq> set es \<Longrightarrow>
   sum_list (map (hours_of es) (map entry_id b)) = sum_list (map timeSpentHours b)"
  by (induction b) (auto simp: hours_of_entry)

lemma set_insert_sibling: "set (insert_sibling le x ys) = insert x (set ys)"
  by (induction ys) auto

lemma set_sort_siblings: "set (sort_siblings lv ns) = set ns"
  by (induction ns) (auto simp: sort_siblings_def set_insert_sibling)

lemma add_to_bucket_members:
  "set (concat (map snd (add_to_bucket k e bs))) = insert e (set (concat (map snd bs)))"
  by (induction k e bs rule: add_to_bucket.induct) auto

lemma partition_entries_members:
  "set (concat (map snd (foldl (\<lambda>bs e. add_to_bucket (key e) e bs) acc es)))
     = set (concat (map snd acc)) \<union> set es"
proof (induction es arbitrary: acc)
  case (Cons e es)
  show ?case
    unfolding foldl_Cons Cons.IH add_to_bucket_members by auto
qed simp

lemma partition_entries_subset:
  assumes "(k, b) \<in> set (partition_entries key es)"
  shows "set b \<subseteq> set es"
proof -
  from assms have "set b \<subseteq> set (concat (map snd (partition_entries key es)))"
    by force
  then show ?thesis
    unfolding partition_entries_def partition_entries_members by simp
qed

lemma build_level_sound:
  assumes d: "distinct (map entry_id es)"
  shows "set b \<subseteq> set es \<Longrightarrow> n \<in> set (build_level pr depth parent lvs b) \<Longrightarrow> node_sound es n"
proof (induction lvs arbitrary: depth parent b n)
  case Nil
  then show ?case by simp
next
  case (Cons lv lvs)
  from Cons.prems(2) obtain k bucket where
    kb: "(k, bucket) \<in> set (partition_entries (group_key pr lv) b)" and
    n: "n = (let nid = make_id pr parent lv k;
                 kids = build_level pr (Suc depth) nid lvs bucket;
                 own = (if lvs = [] then bucket else [])
             in GroupNode nid (dimension lv) k
                  (label_of pr lv k (hd bucket))
                  depth
                  (sum_list (map totalHours kids) + sum_list (map timeSpentHours own))
                  (sum_list (map entryCount kids) + length own)
                  kids
                  (map entry_id own)
                  (expanded lv)
                  (metadata_of pr lv k (hd bucket)))"
    by (auto simp: set_sort_siblings)
  from kb have sub: "set bucket \<subseteq> set es"
    using partition_entries_subset Cons.prems(1) by blast
  then have own: "set (if lvs = [] then bucket else []) \<subseteq> set es" by auto
  have kids: "\<forall>c\<in>set (build_level pr (Suc depth) (make_id pr parent lv k) lvs bucket). node_sound es c"
    using Cons.IH[OF sub] by blast
  show ?case
    unfolding n Let_def using kids sum_hours_of[OF d own] by simp
qed

lemma sound_empty_subtree:
  assumes "node_sound es n" "removable n"
  shows "totalHours n = 0 \<and> entryCount n = 0"
proof -
  from assms(2) have "subtree_entries n = []"
    using node_sound_subtree[OF assms(1)] by (cases n) (auto simp: removable_def)
  with node_sound_subtree[OF assms(1)] show ?thesis by simp
qed

lemma sum_list_filter_zero:
  "\<forall>x\<in>set xs. \<not> P x \<longrightarrow> f x = 0 \<Longrightarrow> sum_list (map f (filter P xs)) = sum_list (map f xs)"
  by (induction xs) auto

lemma prune_node_fields:
  "totalHours (prune_node n) = totalHours n \<and> entryCount (prune_node n) = entryCount n
   \<and> entries (prune_node n) = entries n"
  by (cases n) simp

lemma prune_node_sound: "node_sound es n \<Longrightarrow> node_sound es (prune_node n)"
proof (induction n)
  case (GroupNode i d v n l t c kids ens x m)
  let ?ps = "map prune_node kids"
  from GroupNode have ps: "\<forall>p\<in>set ?ps. node_sound es p" by auto
  then have z: "\<forall>p\<in>set ?ps. \<not> \<not> removable p \<longrightarrow> totalHours p = 0"
    "\<forall>p\<in>set ?ps. \<not> \<not> removable p \<longrightarrow> entryCount p = 0"
    using sound_empty_subtree by blast+
  have "sum_list (map totalHours (filter (\<lambda>k. \<not> removable k) ?ps)) = sum_list (map totalHours ?ps)"
    using z(1) by (rule sum_list_filter_zero)
  also have "\<dots> = sum_list (map totalHours kids)"
    by (simp add: comp_def prune_node_fields)
  finally have t: "sum_list (map totalHours (filter (\<lambda>k. \<not> removable k) ?ps)) = sum_list (map totalHours kids)" .
  have "sum_list (map entryCount (filter (\<lambda>k. \<not> removable k) ?ps)) = sum_list (map entryCount ?ps)"
    using z(2) by (rule sum_list_filter_zero)
  also have "\<dots> = sum_list (map entryCount kids)"
    by (simp add: comp_def prune_node_fields)
  finally have c: "sum_list (map entryCount (filter (\<lambda>k. \<not> removable k) ?ps)) = sum_list (map entryCount kids)" .
  from GroupNode.prems ps show ?case
    unfolding prune_node.simps node_sound.simps t c by auto
qed

lemma build_group_tree_sound:
  assumes d: "distinct (map entry_id es)" and r: "r \<in> set (build_group_tree pr es cfg)"
  shows "node_sound es r"
proof (cases "levels cfg = []")
  case True
  with r have "r = GroupNode (root_id pr) (root_dimension pr) [] (root_label pr) 0
              (sum_list (map timeSpentHours es)) (length es) [] (map entry_id es) True None"
    by (simp add: build_group_tree_def)
  then show ?thesis using sum_hours_of[OF d, of es] by simp
next
  case False
  have f: "\<forall>n\<in>set (build_level pr 0 [] (levels cfg) es). node_sound es n"
    using build_level_sound[OF d, of es] by blast
  show ?thesis
  proof (cases "collapseEmptyGroups cfg")
    case True
    with False r have "r \<in> set (prune_forest (build_level pr 0 [] (levels cfg) es))"
      by (simp add: build_group_tree_def)
    then obtain n where "n \<in> set (build_level pr 0 [] (levels cfg) es)" "r = prune_node n"
      by (auto simp: prune_forest_def)
    with f show ?thesis using prune_node_sound by blast
  next
    case c: False
    with False r f show ?thesis by (simp add: build_group_tree_def)
  qed
qed

lemma scenario_tree:
  "build_group_tree example_presentation scenario_entries scenario_config = [scenario_node_A, scenario_node_B]"
  by (simp add: build_group_tree_def scenario_config_def scenario_entries_def scenario_entry_def
      example_presentation_def partition_entries_def group_key_def sort_siblings_def sibling_le_def
      sort_key_le_def prune_forest_def removable_def scenario_node_A_def scenario_node_B_def)

text \<open>
  Claim C6. In every forest the group tree builder produces from entries with distinct
  identifiers, every node's total hours are the sum of its children's total hours plus
  the hours of the entries it owns directly; they equal the sum of the hours of all
  entries in its subtree (exactly, in this model of exact numbers, hence within the
  tolerance \<open>1e-9\<close>); and its entry count is the number of entries in its subtree. The
  node holds identifiers, so the hours of an owned entry are those of the input entry
  with that identifier.
\<close>

theorem group_tree_aggregates:
  assumes "distinct (map entry_id es)"
    and "r \<in> set (build_group_tree pr es cfg)" and "n \<in> set (nodes_of r)"
  shows "totalHours n = sum_list (map totalHours (children n)) + sum_list (map (hours_of es) (entries n))
       \<and> \<bar>totalHours n - sum_list (map (hours_of es) (subtree_entries n))\<bar> \<le> 1 / 10 ^ 9
       \<and> entryCount n = length (subtree_entries n)"
proof -
  have "node_sound es r" using assms(1,2) by (rule build_group_tree_sound)
  then have s: "node_sound es n" using assms(3) by (rule node_sound_nodes)
  from node_sound_fields[OF s] node_sound_subtree[OF s] show ?thesis by simp
qed

theorem group_tree_aggregates_witness:
  "distinct (map entry_id scenario_entries)
   \<and> build_group_tree example_presentation scenario_entries scenario_config = [scenario_node_A, scenario_node_B]
   \<and> totalHours scenario_node_A = 5
   \<and> totalHours scenario_node_A =
       sum_list (map totalHours (children scenario_node_A))
       + sum_list (map (hours_of scenario_entries) (entries scenario_node_A))
   \<and> \<bar>totalHours scenario_node_A
        - sum_list (map (hours_of scenario_entries) (subtree_entries scenario_node_A))\<bar> \<le> 1 / 10 ^ 9
   \<and> entryCount scenario_node_A = length (subtree_entries scenario_node_A)
   \<and> entryCount scenario_node_A = 2"
proof -
  have d: "distinct (map entry_id scenario_entries)"
    by (simp add: scenario_entries_def scenario_entry_def)
  have r: "scenario_node_A \<in> set (build_group_tree example_presentation scenario_entries scenario_config)"
    unfolding scenario_tree by simp
  have n: "scenario_node_A \<in> set (nodes_of scenario_node_A)"
    by (simp add: scenario_node_A_def)
  from group_tree_aggregates[OF d r n] d scenario_tree show ?thesis
    by (simp add: scenario_node_A_def)
qed

end
